theory Spec2Isabelle
  imports Main "HOL-Library.Word" "HOL-Library.AList"
begin

section \<open>JavaScript values used by automata.js\<close>

text \<open>
  A JavaScript string is a sequence of UTF-16 code units: \<open>s.length\<close> counts code units
  and \<open>s[i]\<close> is the one-unit string at index \<open>i\<close>.  The marker \<open>\<epsilon>\<close> (U+03B5) is one unit.
\<close>

type_synonym jschar = "16 word"
type_synonym jsstring = "jschar list"

text \<open>An ASCII literal: every ASCII character is the code unit of the same number.\<close>

definition str :: "string \<Rightarrow> jsstring" where
  "str s = map of_char s"

definition epsilon :: jsstring where
  "epsilon = [0x3B5]"

text \<open>
  \<open>String.prototype.trim\<close> removes the WhiteSpace and LineTerminator code points of
  ECMAScript from both ends.
\<close>

definition is_ws :: "jschar \<Rightarrow> bool" where
  "is_ws c = (c \<in> set [0x9, 0xA, 0xB, 0xC, 0xD, 0x20, 0xA0, 0x1680,
      0x2000, 0x2001, 0x2002, 0x2003, 0x2004, 0x2005, 0x2006, 0x2007, 0x2008, 0x2009, 0x200A,
      0x2028, 0x2029, 0x202F, 0x205F, 0x3000, 0xFEFF])"

definition trim :: "jsstring \<Rightarrow> jsstring" where
  "trim s = rev (dropWhile is_ws (rev (dropWhile is_ws s)))"

text \<open>
  \<open>s.split(d)\<close> for a one-unit separator \<open>d\<close>: the pieces between the occurrences of
  \<open>d\<close>, always at least one piece (\<open>"".split(",")\<close> is \<open>[""]\<close>).
\<close>

fun split_chr :: "jschar \<Rightarrow> jsstring \<Rightarrow> jsstring list" where
  "split_chr d [] = [[]]"
| "split_chr d (c # cs) =
     (if c = d then [] # split_chr d cs
      else (case split_chr d cs of
              [] \<Rightarrow> [[c]]
            | p # ps \<Rightarrow> (c # p) # ps))"

text \<open>\<open>s.split('->')\<close>: the separator is matched left to right, without overlap.\<close>

fun split_arrow :: "jsstring \<Rightarrow> jsstring list" where
  "split_arrow [] = [[]]"
| "split_arrow [c] = [[c]]"
| "split_arrow (c # d # cs) =
     (if c = 0x2D \<and> d = 0x3E then [] # split_arrow cs
      else (case split_arrow (d # cs) of
              [] \<Rightarrow> [[c]]
            | p # ps \<Rightarrow> (c # p) # ps))"

text \<open>\<open>xs.join(sep)\<close>.\<close>

fun join :: "jsstring \<Rightarrow> jsstring list \<Rightarrow> jsstring" where
  "join sep [] = []"
| "join sep [x] = x"
| "join sep (x # y # ys) = x @ sep @ join sep (y # ys)"

text \<open>
  A JavaScript \<open>Set\<close> keeps its members in insertion order: a list without duplicates,
  \<open>add\<close> appends a new member and leaves a present one where it is.
\<close>

definition Set_add :: "'a \<Rightarrow> 'a list \<Rightarrow> 'a list" where
  "Set_add x xs = (if x \<in> set xs then xs else xs @ [x])"

text \<open>
  A JavaScript \<open>Map\<close> keeps its entries in insertion order: an association list,
  \<open>get\<close> is \<^const>\<open>map_of\<close>, \<open>set\<close> is \<^const>\<open>AList.update\<close> (a present key keeps its
  place, a new one goes last).
\<close>

definition Map_has :: "('k \<times> 'v) list \<Rightarrow> 'k \<Rightarrow> bool" where
  "Map_has m k = (map_of m k \<noteq> None)"

text \<open>A string is truthy when it is neither \<open>null\<close> nor empty.\<close>

fun truthy :: "jsstring option \<Rightarrow> bool" where
  "truthy None = False"
| "truthy (Some s) = (s \<noteq> [])"

section \<open>Errors, warnings and outcomes\<close>

text \<open>
  Every \<open>throw new Error(...)\<close> of the source is a constructor carrying the values that
  the message interpolates.  \<open>TypeError\<close> is what the engine raises for
  \<open>null.trim()\<close>.  \<open>NoTransition\<close> is the message that \<open>recognizeWord\<close> stores in its
  result without throwing.
\<close>

datatype error =
    InitialStateMissing jsstring
  | FinalStateMissing jsstring
  | FromStateMissing jsstring
  | ToStateMissing jsstring
  | SymbolMissing jsstring
  | TransitionFormat jsstring
  | NotInitialized
  | NoTransition jsstring "jsstring option"
  | StartSymbolMissing jsstring
  | LeftSideMissing jsstring
  | ProductionFormat jsstring
  | LineFormat jsstring
  | UnknownId "int option"
  | LineError nat error
  | TypeError

text \<open>The one \<open>console.warn\<close> of the source: (from, symbol) -> old target, new target.\<close>

datatype warning = Overwrite jsstring jsstring jsstring jsstring

text \<open>
  A method call on an object either returns or throws; in both cases the object may
  have been mutated and the console may have received warnings.
\<close>

datatype 's outcome = Done 's "warning list" | Thrown error 's "warning list"

fun bind :: "'s outcome \<Rightarrow> ('s \<Rightarrow> 's outcome) \<Rightarrow> 's outcome" where
  "bind (Done s w) f =
     (case f s of
        Done t w' \<Rightarrow> Done t (w @ w')
      | Thrown e t w' \<Rightarrow> Thrown e t (w @ w'))"
| "bind (Thrown e s w) f = Thrown e s w"

text \<open>\<open>xs.forEach(f)\<close> with a callback that mutates \<open>s\<close> and may throw.\<close>

fun forEach :: "('s \<Rightarrow> 'a \<Rightarrow> 's outcome) \<Rightarrow> 'a list \<Rightarrow> 's \<Rightarrow> 's outcome" where
  "forEach f [] s = Done s []"
| "forEach f (x # xs) s = bind (f s x) (forEach f xs)"

fun map_outcome :: "('s \<Rightarrow> 't) \<Rightarrow> 's outcome \<Rightarrow> 't outcome" where
  "map_outcome g (Done s w) = Done (g s) w"
| "map_outcome g (Thrown e s w) = Thrown e (g s) w"

section \<open>class FiniteAutomaton\<close>

record path_entry =
  state :: jsstring
  symbol :: "jsstring option"
  step :: nat

record FiniteAutomaton =
  name :: jsstring
  states :: "jsstring list"
  alphabet :: "jsstring list"
  initialState :: "jsstring option"
  finalStates :: "jsstring list"
  transitions :: "(jsstring \<times> (jsstring \<times> jsstring) list) list"
  currentState :: "jsstring option"
  executionPath :: "path_entry list"

definition new_FiniteAutomaton :: "jsstring \<Rightarrow> FiniteAutomaton" where
  "new_FiniteAutomaton n =
     \<lparr>name = n, states = [], alphabet = [], initialState = None, finalStates = [],
      transitions = [], currentState = None, executionPath = []\<rparr>"

definition setStates :: "FiniteAutomaton \<Rightarrow> jsstring list \<Rightarrow> FiniteAutomaton" where
  "setStates A xs = A\<lparr>states := fold (\<lambda>x S. Set_add (trim x) S) xs []\<rparr>"

definition setAlphabet :: "FiniteAutomaton \<Rightarrow> jsstring list \<Rightarrow> FiniteAutomaton" where
  "setAlphabet A xs = A\<lparr>alphabet := fold (\<lambda>x S. Set_add (trim x) S) xs []\<rparr>"

definition setInitialState :: "FiniteAutomaton \<Rightarrow> jsstring \<Rightarrow> FiniteAutomaton outcome" where
  "setInitialState A s =
     (let trimmedState = trim s in
      if trimmedState \<notin> set (states A) then Thrown (InitialStateMissing trimmedState) A []
      else Done (A\<lparr>initialState := Some trimmedState\<rparr>) [])"

definition setFinalStates :: "FiniteAutomaton \<Rightarrow> jsstring list \<Rightarrow> FiniteAutomaton outcome" where
  "setFinalStates A xs =
     forEach (\<lambda>B x.
        let trimmedState = trim x in
        if trimmedState \<notin> set (states B) then Thrown (FinalStateMissing trimmedState) B []
        else Done (B\<lparr>finalStates := Set_add trimmedState (finalStates B)\<rparr>) [])
       xs (A\<lparr>finalStates := []\<rparr>)"

text \<open>The row of a state in the table, empty when the state has none.\<close>

definition row_of :: "(jsstring \<times> (jsstring \<times> jsstring) list) list \<Rightarrow> jsstring
    \<Rightarrow> (jsstring \<times> jsstring) list" where
  "row_of T q = (case map_of T q of None \<Rightarrow> [] | Some r \<Rightarrow> r)"

text \<open>
  \<open>addTransition\<close>: the three checks come first, so a throw leaves the automaton as it
  was.  The row of \<open>from\<close> is created when absent; the row is then updated in place, and
  an entry already there is reported on the console before it is overwritten.
\<close>

definition addTransition ::
  "FiniteAutomaton \<Rightarrow> jsstring \<Rightarrow> jsstring \<Rightarrow> jsstring \<Rightarrow> FiniteAutomaton outcome" where
  "addTransition A fromState symbol0 toState =
     (let frm = trim fromState; smb = trim symbol0; tgt = trim toState in
      if frm \<notin> set (states A) then Thrown (FromStateMissing frm) A []
      else if tgt \<notin> set (states A) then Thrown (ToStateMissing tgt) A []
      else if smb \<notin> set (alphabet A) then Thrown (SymbolMissing smb) A []
      else
        let T = (if \<not> Map_has (transitions A) frm
                 then AList.update frm [] (transitions A) else transitions A);
            w = (case map_of (row_of T frm) smb of
                   Some old \<Rightarrow> [Overwrite frm smb old tgt]
                 | None \<Rightarrow> [])
        in Done (A\<lparr>transitions := AList.update frm (AList.update smb tgt (row_of T frm)) T\<rparr>) w)"

definition setTransitions :: "FiniteAutomaton \<Rightarrow> jsstring \<Rightarrow> FiniteAutomaton outcome" where
  "setTransitions A transitionsStr =
     forEach (\<lambda>B transition.
        case split_chr 0x2C (trim transition) of
          [fromState, smb, toState] \<Rightarrow> addTransition B fromState smb toState
        | _ \<Rightarrow> Thrown (TransitionFormat transition) B [])
       (split_chr 0x3B transitionsStr) A"

definition reset :: "FiniteAutomaton \<Rightarrow> FiniteAutomaton" where
  "reset A =
     (let B = A\<lparr>currentState := initialState A, executionPath := []\<rparr> in
      case currentState B of
        None \<Rightarrow> B
      | Some q \<Rightarrow>
          if q \<noteq> [] then B\<lparr>executionPath := [\<lparr>state = q, symbol = None, step = 0\<rparr>]\<rparr>
          else B)"

text \<open>
  \<open>processSymbol\<close> throws when the current state is falsy (\<open>null\<close> or the empty string);
  otherwise it returns whether it moved, and the automaton.
\<close>

definition processSymbol ::
  "FiniteAutomaton \<Rightarrow> jsstring \<Rightarrow> error + bool \<times> FiniteAutomaton" where
  "processSymbol A a =
     (if \<not> truthy (currentState A) then Inl NotInitialized
      else if a \<notin> set (alphabet A) then Inr (False, A)
      else
        case currentState A of
          None \<Rightarrow> Inr (False, A)
        | Some q \<Rightarrow>
           (case map_of (transitions A) q of
              None \<Rightarrow> Inr (False, A)
            | Some stateTransitions \<Rightarrow>
               (case map_of stateTransitions a of
                  None \<Rightarrow> Inr (False, A)
                | Some nextState \<Rightarrow>
                    Inr (True, A\<lparr>currentState := Some nextState,
                                 executionPath := executionPath A @
                                   [\<lparr>state = nextState, symbol = Some a,
                                     step = length (executionPath A)\<rparr>]\<rparr>))))"

record recognition =
  word :: jsstring
  accepted :: bool
  path :: "path_entry list"
  error :: "error option"
  finalState :: "jsstring option"

text \<open>
  The \<open>for\<close> loop of \<open>recognizeWord\<close> over the code units still to read, with the
  \<open>try\<close>/\<open>catch\<close> around it: a throw of \<open>processSymbol\<close> only sets \<open>result.error\<close>.
\<close>

fun recognize_loop ::
  "FiniteAutomaton \<Rightarrow> jsstring \<Rightarrow> recognition \<Rightarrow> recognition \<times> FiniteAutomaton" where
  "recognize_loop A [] r =
     (r\<lparr>accepted := (case currentState A of
                       None \<Rightarrow> False
                     | Some q \<Rightarrow> q \<in> set (finalStates A)),
        finalState := currentState A,
        path := executionPath A\<rparr>, A)"
| "recognize_loop A (c # cs) r =
     (case processSymbol A [c] of
        Inl e \<Rightarrow> (r\<lparr>error := Some e\<rparr>, A)
      | Inr (success, B) \<Rightarrow>
          if \<not> success
          then (r\<lparr>error := Some (NoTransition [c] (currentState B)),
                  path := executionPath B\<rparr>, B)
          else recognize_loop B cs r)"

definition recognizeWord ::
  "FiniteAutomaton \<Rightarrow> jsstring \<Rightarrow> recognition \<times> FiniteAutomaton" where
  "recognizeWord A w =
     recognize_loop (reset A) w
       \<lparr>word = w, accepted = False, path = [], error = None, finalState = None\<rparr>"

text \<open>
  The target retrievable from the transition table for a pair:
  \<open>transitions.get(q)\<close>, then \<open>.get(a)\<close> on the row when there is one.
\<close>

definition delta :: "FiniteAutomaton \<Rightarrow> jsstring \<Rightarrow> jsstring \<Rightarrow> jsstring option" where
  "delta A q a = (case map_of (transitions A) q of None \<Rightarrow> None | Some r \<Rightarrow> map_of r a)"

text \<open>\<open>getTransitionsArray\<close>: the rows in order, each row's entries in order.\<close>

record transition =
  tr_from :: jsstring
  tr_symbol :: jsstring
  tr_to :: jsstring

definition getTransitionsArray :: "FiniteAutomaton \<Rightarrow> transition list" where
  "getTransitionsArray A =
     concat (map (\<lambda>(fromState, stateTransitions).
        map (\<lambda>(smb, toState). \<lparr>tr_from = fromState, tr_symbol = smb, tr_to = toState\<rparr>)
          stateTransitions) (transitions A))"

text \<open>The entries of the two validation results.\<close>

datatype issue =
    NoStates | NoAlphabet | NoInitialState | NoFinalStates | MissingTransitions nat
  | NoNonTerminals | NoTerminals | NoStartSymbol | NoProductions
  | NotRegular jsstring jsstring
  | InvalidFormat jsstring jsstring
  | UndefinedTerminal jsstring

record validation =
  isValid :: bool
  errors :: "issue list"
  warnings :: "issue list"

definition validate :: "FiniteAutomaton \<Rightarrow> validation" where
  "validate A =
     (let errs = (if length (states A) = 0 then [NoStates] else [])
               @ (if length (alphabet A) = 0 then [NoAlphabet] else [])
               @ (if \<not> truthy (initialState A) then [NoInitialState] else []);
          missingTransitions =
            length (filter (\<lambda>(q, a).
                \<not> Map_has (transitions A) q \<or> \<not> Map_has (row_of (transitions A) q) a)
              (List.product (states A) (alphabet A)));
          warns = (if length (finalStates A) = 0 then [NoFinalStates] else [])
                @ (if missingTransitions > 0 then [MissingTransitions missingTransitions] else [])
      in \<lparr>isValid = (length errs = 0), errors = errs, warnings = warns\<rparr>)"

section \<open>class RegularGrammar\<close>

record RegularGrammar =
  gname :: jsstring
  nonTerminals :: "jsstring list"
  terminals :: "jsstring list"
  startSymbol :: "jsstring option"
  productions :: "(jsstring \<times> jsstring list) list"

definition new_RegularGrammar :: "jsstring \<Rightarrow> RegularGrammar" where
  "new_RegularGrammar n =
     \<lparr>gname = n, nonTerminals = [], terminals = [], startSymbol = None, productions = []\<rparr>"

definition setNonTerminals :: "RegularGrammar \<Rightarrow> jsstring list \<Rightarrow> RegularGrammar" where
  "setNonTerminals G xs = G\<lparr>nonTerminals := fold (\<lambda>x S. Set_add (trim x) S) xs []\<rparr>"

definition setTerminals :: "RegularGrammar \<Rightarrow> jsstring list \<Rightarrow> RegularGrammar" where
  "setTerminals G xs = G\<lparr>terminals := fold (\<lambda>x S. Set_add (trim x) S) xs []\<rparr>"

definition setStartSymbol :: "RegularGrammar \<Rightarrow> jsstring \<Rightarrow> RegularGrammar outcome" where
  "setStartSymbol G s =
     (let trimmedSymbol = trim s in
      if trimmedSymbol \<notin> set (nonTerminals G) then Thrown (StartSymbolMissing trimmedSymbol) G []
      else Done (G\<lparr>startSymbol := Some trimmedSymbol\<rparr>) [])"

definition rhs_of :: "(jsstring \<times> jsstring list) list \<Rightarrow> jsstring \<Rightarrow> jsstring list" where
  "rhs_of P n = (case map_of P n of None \<Rightarrow> [] | Some r \<Rightarrow> r)"

definition addProduction ::
  "RegularGrammar \<Rightarrow> jsstring \<Rightarrow> jsstring \<Rightarrow> RegularGrammar outcome" where
  "addProduction G leftSide rightSide =
     (let lhs = trim leftSide; rhs = trim rightSide in
      if lhs \<notin> set (nonTerminals G) then Thrown (LeftSideMissing lhs) G []
      else
        let P = (if \<not> Map_has (productions G) lhs
                 then AList.update lhs [] (productions G) else productions G)
        in Done (G\<lparr>productions := AList.update lhs (rhs_of P lhs @ [rhs]) P\<rparr>) [])"

definition setProductions :: "RegularGrammar \<Rightarrow> jsstring \<Rightarrow> RegularGrammar outcome" where
  "setProductions G productionsStr =
     forEach (\<lambda>H production.
        case split_arrow (trim production) of
          [leftSide, rightSide] \<Rightarrow> addProduction H leftSide rightSide
        | _ \<Rightarrow> Thrown (ProductionFormat production) H [])
       (split_chr 0x3B productionsStr) G"

text \<open>
  A conversion builds a new object and returns it; when a setter throws on the way, the
  object under construction is lost and only the error (and what the console received)
  remains.
\<close>

datatype 'a result = Returned 'a "warning list" | Raised error "warning list"

text \<open>
  The body of the inner \<open>forEach\<close> of \<open>toFiniteAutomaton\<close>, on the automaton under
  construction and the local array \<open>finalStates\<close>.
\<close>

definition production_step ::
  "RegularGrammar \<Rightarrow> jsstring \<Rightarrow> FiniteAutomaton \<times> jsstring list \<Rightarrow> jsstring
     \<Rightarrow> (FiniteAutomaton \<times> jsstring list) outcome" where
  "production_step G nonTerminal st production =
     (case st of (A, finals) \<Rightarrow>
      if production = epsilon \<or> production = [] then Done (A, finals @ [nonTerminal]) []
      else if length production = 1 \<and> production \<in> set (terminals G)
      then map_outcome (\<lambda>B. (B, finals)) (addTransition A nonTerminal production (str ''qf''))
      else if length production = 2 \<and> [production ! 0] \<in> set (terminals G)
              \<and> [production ! 1] \<in> set (nonTerminals G)
      then map_outcome (\<lambda>B. (B, finals))
             (addTransition A nonTerminal [production ! 0] [production ! 1])
      else Done (A, finals) [])"

definition toFiniteAutomaton :: "RegularGrammar \<Rightarrow> FiniteAutomaton result" where
  "toFiniteAutomaton G =
     (let automaton = new_FiniteAutomaton (str ''AFD_'' @ gname G);
          finalState = str ''qf'';
          A1 = setStates automaton (nonTerminals G @ [finalState]);
          A2 = setAlphabet A1 (terminals G)
      in case startSymbol G of
           None \<Rightarrow> Raised TypeError []
         | Some s \<Rightarrow>
            (case setInitialState A2 s of
               Thrown e _ w \<Rightarrow> Raised e w
             | Done A3 w1 \<Rightarrow>
                (case forEach (\<lambda>st (nonTerminal, prods).
                         forEach (production_step G nonTerminal) prods st)
                       (productions G) (A3, [finalState]) of
                   Thrown e _ w2 \<Rightarrow> Raised e (w1 @ w2)
                 | Done (A4, finals) w2 \<Rightarrow>
                    (case setFinalStates A4 finals of
                       Thrown e _ w3 \<Rightarrow> Raised e (w1 @ w2 @ w3)
                     | Done A5 w3 \<Rightarrow> Returned A5 (w1 @ w2 @ w3)))))"

text \<open>The checks of \<open>RegularGrammar.validate\<close> on one stored right-hand side.\<close>

definition production_issues :: "RegularGrammar \<Rightarrow> jsstring \<Rightarrow> jsstring \<Rightarrow> issue list" where
  "production_issues G nonTerminal production =
     (if production \<noteq> epsilon \<and> production \<noteq> [] then
        if length production > 2 then [NotRegular nonTerminal production]
        else if length production = 2 then
          (if [production ! 0] \<notin> set (terminals G) \<or> [production ! 1] \<notin> set (nonTerminals G)
           then [InvalidFormat nonTerminal production] else [])
        else if length production = 1 then
          (if [production ! 0] \<notin> set (terminals G)
           then [UndefinedTerminal [production ! 0]] else [])
        else []
      else [])"

definition validateGrammar :: "RegularGrammar \<Rightarrow> validation" where
  "validateGrammar G =
     (let errs = (if length (nonTerminals G) = 0 then [NoNonTerminals] else [])
               @ (if length (terminals G) = 0 then [NoTerminals] else [])
               @ (if \<not> truthy (startSymbol G) then [NoStartSymbol] else [])
               @ (if length (productions G) = 0 then [NoProductions] else [])
               @ concat (map (\<lambda>(nonTerminal, prods).
                    concat (map (production_issues G nonTerminal) prods)) (productions G))
      in \<lparr>isValid = (length errs = 0), errors = errs, warnings = []\<rparr>)"

section \<open>FiniteAutomaton.prototype.toRegularGrammar\<close>

text \<open>
  The array \<open>productions\<close> of strings that the two nested \<open>forEach\<close> and the final
  \<open>if\<close> build; it is joined with \<open>;\<close> and parsed again by \<open>setProductions\<close>.
\<close>

definition production_strings :: "FiniteAutomaton \<Rightarrow> jsstring \<Rightarrow> jsstring list" where
  "production_strings A q0 =
     concat (map (\<lambda>(fromState, stateTransitions).
        concat (map (\<lambda>(smb, toState).
            (fromState @ str ''->'' @ smb @ toState)
            # (if toState \<in> set (finalStates A) then [fromState @ str ''->'' @ smb] else []))
          stateTransitions)) (transitions A))
     @ (if q0 \<in> set (finalStates A) then [q0 @ str ''->'' @ epsilon] else [])"

definition toRegularGrammar :: "FiniteAutomaton \<Rightarrow> RegularGrammar result" where
  "toRegularGrammar A =
     (let grammar = new_RegularGrammar (str ''GR_'' @ name A);
          G1 = setNonTerminals grammar (states A);
          G2 = setTerminals G1 (alphabet A)
      in case initialState A of
           None \<Rightarrow> Raised TypeError []
         | Some q0 \<Rightarrow>
            (case setStartSymbol G2 q0 of
               Thrown e _ w \<Rightarrow> Raised e w
             | Done G3 w1 \<Rightarrow>
                (let prods = production_strings A q0 in
                 if length prods > 0
                 then (case setProductions G3 (join (str '';'') prods) of
                         Thrown e _ w2 \<Rightarrow> Raised e (w1 @ w2)
                       | Done G4 w2 \<Rightarrow> Returned G4 (w1 @ w2))
                 else Returned G3 w1)))"

section \<open>class AutomataParser\<close>

record AutomataParser =
  automata :: "(jsstring \<times> FiniteAutomaton) list"
  grammars :: "(jsstring \<times> RegularGrammar) list"

definition new_AutomataParser :: AutomataParser where
  "new_AutomataParser = \<lparr>automata = [], grammars = []\<rparr>"

definition clear :: "AutomataParser \<Rightarrow> AutomataParser" where
  "clear P = P\<lparr>automata := [], grammars := []\<rparr>"

text \<open>
  \<open>parseInt(s)\<close> with no radix: leading white space, an optional sign, an optional
  \<open>0x\<close> prefix (then base 16), and the longest run of digits of the base; what follows
  the digits is ignored, and no digit at all gives \<open>NaN\<close> (\<open>None\<close>).  The result is the
  integer the digits denote.  (The engine rounds it to a double; \<open>parseLine\<close> only
  compares it with 1 to 9, which rounding neither reaches nor leaves.)
\<close>

definition digit_value :: "jschar \<Rightarrow> nat option" where
  "digit_value c =
     (if 0x30 \<le> c \<and> c \<le> 0x39 then Some (unat c - 48)
      else if 0x61 \<le> c \<and> c \<le> 0x7A then Some (unat c - 87)
      else if 0x41 \<le> c \<and> c \<le> 0x5A then Some (unat c - 55)
      else None)"

definition is_digit :: "nat \<Rightarrow> jschar \<Rightarrow> bool" where
  "is_digit R c = (case digit_value c of None \<Rightarrow> False | Some d \<Rightarrow> d < R)"

definition digits_value :: "nat \<Rightarrow> jsstring \<Rightarrow> nat" where
  "digits_value R Z =
     foldl (\<lambda>n c. n * R + (case digit_value c of None \<Rightarrow> 0 | Some d \<Rightarrow> d)) 0 Z"

definition parseInt :: "jsstring \<Rightarrow> int option" where
  "parseInt input =
     (let s0 = dropWhile is_ws input;
          negative = (case s0 of [] \<Rightarrow> False | c # _ \<Rightarrow> c = 0x2D);
          s1 = (case s0 of [] \<Rightarrow> s0 | c # cs \<Rightarrow> if c = 0x2B \<or> c = 0x2D then cs else s0);
          hex = (case s1 of a # b # _ \<Rightarrow> a = 0x30 \<and> (b = 0x78 \<or> b = 0x58) | _ \<Rightarrow> False);
          R = (if hex then 16 else 10);
          s2 = (if hex then drop 2 s1 else s1);
          Z = takeWhile (is_digit R) s2
      in if Z = [] then None
         else Some (if negative then - int (digits_value R Z) else int (digits_value R Z)))"

text \<open>
  A method call on the automaton (grammar) stored under a name: the object is mutated
  where it sits in the \<open>Map\<close>, also when the method throws.
\<close>

definition on_automaton ::
  "AutomataParser \<Rightarrow> jsstring \<Rightarrow> (FiniteAutomaton \<Rightarrow> FiniteAutomaton outcome)
     \<Rightarrow> AutomataParser outcome" where
  "on_automaton P nm f =
     (case map_of (automata P) nm of
        None \<Rightarrow> Thrown TypeError P []
      | Some A \<Rightarrow> map_outcome (\<lambda>B. P\<lparr>automata := AList.update nm B (automata P)\<rparr>) (f A))"

definition on_grammar ::
  "AutomataParser \<Rightarrow> jsstring \<Rightarrow> (RegularGrammar \<Rightarrow> RegularGrammar outcome)
     \<Rightarrow> AutomataParser outcome" where
  "on_grammar P nm f =
     (case map_of (grammars P) nm of
        None \<Rightarrow> Thrown TypeError P []
      | Some G \<Rightarrow> map_outcome (\<lambda>H. P\<lparr>grammars := AList.update nm H (grammars P)\<rparr>) (f G))"

text \<open>
  \<open>if (!this.automata.has(name)) this.automata.set(name, new FiniteAutomaton(name))\<close>,
  and the same statement for grammars.
\<close>

definition ensure_automaton :: "AutomataParser \<Rightarrow> jsstring \<Rightarrow> AutomataParser" where
  "ensure_automaton P nm =
     (if \<not> Map_has (automata P) nm
      then P\<lparr>automata := AList.update nm (new_FiniteAutomaton nm) (automata P)\<rparr>
      else P)"

definition ensure_grammar :: "AutomataParser \<Rightarrow> jsstring \<Rightarrow> AutomataParser" where
  "ensure_grammar P nm =
     (if \<not> Map_has (grammars P) nm
      then P\<lparr>grammars := AList.update nm (new_RegularGrammar nm) (grammars P)\<rparr>
      else P)"

text \<open>
  \<open>parseLine\<close>: the automaton of the name is created before the \<open>switch\<close>, for every
  code; the grammar of the name is created inside the cases 6 to 9.
\<close>

definition parseLine :: "AutomataParser \<Rightarrow> jsstring \<Rightarrow> AutomataParser outcome" where
  "parseLine P0 line =
     (case split_chr 0x3A line of
        [idInfo, automatonName, information] \<Rightarrow>
          let idn = parseInt (trim idInfo);
              nm = trim automatonName;
              info = trim information;
              P = ensure_automaton P0 nm
          in if idn = Some 1 then
               on_automaton P nm (\<lambda>A. Done (setStates A (map trim (split_chr 0x2C info))) [])
             else if idn = Some 2 then
               on_automaton P nm (\<lambda>A. Done (setAlphabet A (map trim (split_chr 0x2C info))) [])
             else if idn = Some 3 then
               on_automaton P nm (\<lambda>A. setInitialState A info)
             else if idn = Some 4 then
               on_automaton P nm (\<lambda>A. setFinalStates A (map trim (split_chr 0x2C info)))
             else if idn = Some 5 then
               on_automaton P nm (\<lambda>A. setTransitions A info)
             else if idn = Some 6 then
               on_grammar (ensure_grammar P nm) nm
                 (\<lambda>G. Done (setNonTerminals G (map trim (split_chr 0x2C info))) [])
             else if idn = Some 7 then
               on_grammar (ensure_grammar P nm) nm
                 (\<lambda>G. Done (setTerminals G (map trim (split_chr 0x2C info))) [])
             else if idn = Some 8 then
               on_grammar (ensure_grammar P nm) nm (\<lambda>G. setStartSymbol G info)
             else if idn = Some 9 then
               on_grammar (ensure_grammar P nm) nm (\<lambda>G. setProductions G info)
             else Thrown (UnknownId idn) P []
      | _ \<Rightarrow> Thrown (LineFormat line) P0 [])"

text \<open>
  The \<open>forEach\<close> of \<open>parseFile\<close> over the lines that are not blank, with the index of
  the line in that list; an error of \<open>parseLine\<close> is thrown again with \<open>index + 1\<close>.
\<close>

fun parse_lines :: "AutomataParser \<Rightarrow> nat \<Rightarrow> jsstring list \<Rightarrow> AutomataParser outcome" where
  "parse_lines P index [] = Done P []"
| "parse_lines P index (line # rest) =
     bind (case parseLine P (trim line) of
             Thrown e P' w \<Rightarrow> Thrown (LineError (index + 1) e) P' w
           | Done P' w \<Rightarrow> Done P' w)
       (\<lambda>P'. parse_lines P' (index + 1) rest)"

definition file_lines :: "jsstring \<Rightarrow> jsstring list" where
  "file_lines content = filter (\<lambda>line. trim line \<noteq> []) (split_chr 0xA content)"

definition parseFile :: "AutomataParser \<Rightarrow> jsstring \<Rightarrow> AutomataParser outcome" where
  "parseFile P content = parse_lines P 0 (file_lines content)"

section \<open>Notions used in the statements\<close>

text \<open>
  The part of an automaton that is its definition: everything except the two fields of
  the current run.
\<close>

definition static :: "FiniteAutomaton \<Rightarrow> FiniteAutomaton" where
  "static A = A\<lparr>currentState := None, executionPath := []\<rparr>"

text \<open>An automaton with states q0, q1 whose only final state is q0.\<close>

definition fa_q0_final :: FiniteAutomaton where
  "fa_q0_final =
     \<lparr>name = str ''X'', states = [str ''q0'', str ''q1''], alphabet = [str ''a''],
      initialState = Some (str ''q0''), finalStates = [str ''q0''], transitions = [],
      currentState = None, executionPath = []\<rparr>"

text \<open>
  The automaton of the specification's examples: states q0, q1, alphabet a, b, initial
  state q0, final state q1, transitions q0,a,q1; q0,b,q0; q1,a,q1; q1,b,q0.
\<close>

definition fa_X :: FiniteAutomaton where
  "fa_X =
     \<lparr>name = str ''X'', states = [str ''q0'', str ''q1''], alphabet = [str ''a'', str ''b''],
      initialState = Some (str ''q0''), finalStates = [str ''q1''],
      transitions = [(str ''q0'', [(str ''a'', str ''q1''), (str ''b'', str ''q0'')]),
                     (str ''q1'', [(str ''a'', str ''q1''), (str ''b'', str ''q0'')])],
      currentState = None, executionPath = []\<rparr>"

text \<open>
  Acceptance as the specification words it, by walking the transition table by hand:
  from the initial state, each code unit of the word must be in the alphabet and have a
  transition from the state reached so far; the state reached at the end must be final.
\<close>

fun spec_walk :: "FiniteAutomaton \<Rightarrow> jsstring \<Rightarrow> jsstring \<Rightarrow> jsstring option" where
  "spec_walk A q [] = Some q"
| "spec_walk A q (c # cs) =
     (if [c] \<in> set (alphabet A)
      then (case delta A q [c] of None \<Rightarrow> None | Some p \<Rightarrow> spec_walk A p cs)
      else None)"

definition spec_accepts :: "FiniteAutomaton \<Rightarrow> jsstring \<Rightarrow> bool" where
  "spec_accepts A w =
     (case initialState A of
        None \<Rightarrow> False
      | Some q0 \<Rightarrow>
         (case spec_walk A q0 w of None \<Rightarrow> False | Some q \<Rightarrow> q \<in> set (finalStates A)))"

text \<open>No transition leads to the state whose name is the empty string.\<close>

definition targets_named :: "FiniteAutomaton \<Rightarrow> bool" where
  "targets_named A =
     (\<forall>row \<in> set (map snd (transitions A)). \<forall>p \<in> set (map snd row). p \<noteq> [])"

text \<open>
  An automaton with a state whose name is the empty string, as the parser builds it from
  the states line \<open>1:X:q0,\<close> and the transitions line \<open>5:X:q0,a,;,a,q0\<close>.
\<close>

definition fa_empty_name :: FiniteAutomaton where
  "fa_empty_name =
     \<lparr>name = str ''X'', states = [str ''q0'', []], alphabet = [str ''a''],
      initialState = Some (str ''q0''), finalStates = [str ''q0''],
      transitions = [(str ''q0'', [(str ''a'', [])]), ([], [(str ''a'', str ''q0'')])],
      currentState = None, executionPath = []\<rparr>"

text \<open>
  What being a \<open>Map\<close> of \<open>Map\<close>s means for the association lists: no key occurs twice,
  in the table and in each row.
\<close>

definition transitions_ok :: "FiniteAutomaton \<Rightarrow> bool" where
  "transitions_ok A =
     (distinct (map fst (transitions A)) \<and>
      (\<forall>row \<in> set (map snd (transitions A)). distinct (map fst row)))"

text \<open>The targets that \<open>getTransitionsArray\<close> lists for a pair (state, symbol).\<close>

definition entries_for :: "FiniteAutomaton \<Rightarrow> jsstring \<Rightarrow> jsstring \<Rightarrow> jsstring list" where
  "entries_for A q a =
     map tr_to (filter (\<lambda>t. tr_from t = q \<and> tr_symbol t = a) (getTransitionsArray A))"

definition row_entries :: "jsstring \<times> (jsstring \<times> jsstring) list \<Rightarrow> transition list" where
  "row_entries = (\<lambda>(fromState, stateTransitions).
        map (\<lambda>(smb, toState). \<lparr>tr_from = fromState, tr_symbol = smb, tr_to = toState\<rparr>)
          stateTransitions)"

text \<open>A sequence of \<open>addTransition\<close> calls, one after the other, up to the first throw.\<close>

definition addTransitions ::
  "FiniteAutomaton \<Rightarrow> (jsstring \<times> jsstring \<times> jsstring) list \<Rightarrow> FiniteAutomaton outcome" where
  "addTransitions A calls = forEach (\<lambda>B (f, s, t). addTransition B f s t) calls A"

text \<open>
  The file of the specification's parser example, and the grammar and automaton that the
  two conversions make of \<open>fa_X\<close>.
\<close>

definition file_X :: jsstring where
  "file_X = join [0xA] [str ''1:X:q0,q1'', str ''2:X:a,b'', str ''3:X:q0'', str ''4:X:q1'',
     str ''5:X:q0,a,q1;q0,b,q0;q1,a,q1;q1,b,q0'']"

definition gr_X :: RegularGrammar where
  "gr_X =
     \<lparr>gname = str ''GR_X'', nonTerminals = [str ''q0'', str ''q1''],
      terminals = [str ''a'', str ''b''], startSymbol = Some (str ''q0''),
      productions = [(str ''q0'', [str ''aq1'', str ''a'', str ''bq0'']),
                     (str ''q1'', [str ''aq1'', str ''a'', str ''bq0''])]\<rparr>"

definition fa_X_back :: FiniteAutomaton where
  "fa_X_back =
     \<lparr>name = str ''AFD_GR_X'', states = [str ''q0'', str ''q1'', str ''qf''],
      alphabet = [str ''a'', str ''b''],
      initialState = Some (str ''q0''), finalStates = [str ''qf''],
      transitions = [(str ''q0'', [(str ''a'', str ''qf'')]),
                     (str ''q1'', [(str ''a'', str ''qf'')])],
      currentState = None, executionPath = []\<rparr>"

text \<open>
  The same with one-letter state names: states A, B, alphabet a, initial A, final B,
  transitions A,a,B; B,a,B (the words of one or more a).
\<close>

definition fa_Y :: FiniteAutomaton where
  "fa_Y =
     \<lparr>name = str ''Y'', states = [str ''A'', str ''B''], alphabet = [str ''a''],
      initialState = Some (str ''A''), finalStates = [str ''B''],
      transitions = [(str ''A'', [(str ''a'', str ''B'')]),
                     (str ''B'', [(str ''a'', str ''B'')])],
      currentState = None, executionPath = []\<rparr>"

definition gr_Y :: RegularGrammar where
  "gr_Y =
     \<lparr>gname = str ''GR_Y'', nonTerminals = [str ''A'', str ''B''],
      terminals = [str ''a''], startSymbol = Some (str ''A''),
      productions = [(str ''A'', [str ''aB'', str ''a'']), (str ''B'', [str ''aB'', str ''a''])]\<rparr>"

definition fa_Y_back :: FiniteAutomaton where
  "fa_Y_back =
     \<lparr>name = str ''AFD_GR_Y'', states = [str ''A'', str ''B'', str ''qf''],
      alphabet = [str ''a''],
      initialState = Some (str ''A''), finalStates = [str ''qf''],
      transitions = [(str ''A'', [(str ''a'', str ''qf'')]),
                     (str ''B'', [(str ''a'', str ''qf'')])],
      currentState = None, executionPath = []\<rparr>"

text \<open>
  The classification of a right-hand side as the specification words it: the marker
  \<open>\<epsilon>\<close> or the empty string is valid; one code unit is valid when it is a terminal; two
  are valid when the first is a terminal and the second a nonterminal; anything longer
  is not.
\<close>

definition spec_rhs_valid :: "RegularGrammar \<Rightarrow> jsstring \<Rightarrow> bool" where
  "spec_rhs_valid G rhs =
     (if rhs = epsilon \<or> rhs = [] then True
      else if length rhs = 1 then rhs \<in> set (terminals G)
      else if length rhs = 2
      then [rhs ! 0] \<in> set (terminals G) \<and> [rhs ! 1] \<in> set (nonTerminals G)
      else False)"

text \<open>
  The code points of a string: a high surrogate followed by a low surrogate is one code
  point, every other code unit is one by itself.
\<close>

definition high_surrogate :: "jschar \<Rightarrow> bool" where
  "high_surrogate c = (0xD800 \<le> c \<and> c \<le> 0xDBFF)"

definition low_surrogate :: "jschar \<Rightarrow> bool" where
  "low_surrogate c = (0xDC00 \<le> c \<and> c \<le> 0xDFFF)"

fun code_points :: "jsstring \<Rightarrow> jsstring list" where
  "code_points [] = []"
| "code_points [c] = [[c]]"
| "code_points (c # d # cs) =
     (if high_surrogate c \<and> low_surrogate d then [c, d] # code_points cs
      else [c] # code_points (d # cs))"

text \<open>
  The same classification with length and positions taken in code points, as the
  specification's sentence names them.
\<close>

definition spec_rhs_valid_points :: "RegularGrammar \<Rightarrow> jsstring \<Rightarrow> bool" where
  "spec_rhs_valid_points G rhs =
     (if rhs = epsilon \<or> rhs = [] then True
      else if length (code_points rhs) = 1 then rhs \<in> set (terminals G)
      else if length (code_points rhs) = 2
      then code_points rhs ! 0 \<in> set (terminals G)
           \<and> code_points rhs ! 1 \<in> set (nonTerminals G)
      else False)"

text \<open>
  U+1F600 as JavaScript holds it (a surrogate pair), and the grammar with nonterminal A,
  that terminal, and the production \<open>A -> U+1F600\<close>.
\<close>

definition emoji :: jsstring where
  "emoji = [0xD83D, 0xDE00]"

definition gr_emoji :: RegularGrammar where
  "gr_emoji =
     \<lparr>gname = str ''G'', nonTerminals = [str ''A''], terminals = [emoji],
      startSymbol = Some (str ''A''), productions = [(str ''A'', [emoji])]\<rparr>"

text \<open>The stored productions as pairs (nonterminal, right-hand side).\<close>

definition stored :: "RegularGrammar \<Rightarrow> (jsstring \<times> jsstring) list" where
  "stored G =
     concat (map (\<lambda>(nonTerminal, prods). map (Pair nonTerminal) prods) (productions G))"

text \<open>A grammar with the four right-hand sides of the specification's example.\<close>

definition gr_shapes :: RegularGrammar where
  "gr_shapes =
     \<lparr>gname = str ''G'', nonTerminals = [str ''A'', str ''B''], terminals = [str ''a''],
      startSymbol = Some (str ''A''),
      productions = [(str ''A'', [str ''abc'', epsilon, str ''a'', str ''aB''])]\<rparr>"



text \<open>The object a call left behind, whether it returned or threw.\<close>

fun state_after :: "'s outcome \<Rightarrow> 's" where
  "state_after (Done s w) = s"
| "state_after (Thrown e s w) = s"




text \<open>
  The production set as the specification words it: \<open>q -> ap\<close> for every transition
  \<open>(q, a) -> p\<close>, also \<open>q -> a\<close> when \<open>p\<close> is final, and \<open>q0 -> \<epsilon>\<close> when the initial state
  \<open>q0\<close> is final; as pairs (left side, right side).
\<close>

definition expected_productions :: "FiniteAutomaton \<Rightarrow> jsstring \<Rightarrow> (jsstring \<times> jsstring) list" where
  "expected_productions A q0 =
     concat (map (\<lambda>t. (tr_from t, tr_symbol t @ tr_to t)
                     # (if tr_to t \<in> set (finalStates A) then [(tr_from t, tr_symbol t)] else []))
              (getTransitionsArray A))
     @ (if q0 \<in> set (finalStates A) then [(q0, epsilon)] else [])"

text \<open>
  The invariants of the data model: names are stored trimmed (the setters trim them),
  and every transition goes from a state, on a symbol of the alphabet, to a state.
\<close>

definition fa_wf :: "FiniteAutomaton \<Rightarrow> bool" where
  "fa_wf A =
     ((\<forall>x \<in> set (states A). trim x = x) \<and> (\<forall>x \<in> set (alphabet A). trim x = x)
      \<and> (\<forall>t \<in> set (getTransitionsArray A).
            tr_from t \<in> set (states A) \<and> tr_symbol t \<in> set (alphabet A)
            \<and> tr_to t \<in> set (states A)))"

text \<open>
  \<open>toRegularGrammar\<close> writes the productions as one text \<open>q->ap;q->a;...\<close> and parses it
  again, so the separators must not occur in the names: no \<open>;\<close> in a state or symbol
  name, no \<open>->\<close> in a state name nor in a symbol followed by its target.
\<close>

fun has_arrow :: "jsstring \<Rightarrow> bool" where
  "has_arrow [] = False"
| "has_arrow [c] = False"
| "has_arrow (c # d # cs) = ((c = 0x2D \<and> d = 0x3E) \<or> has_arrow (d # cs))"

definition separator_free :: "FiniteAutomaton \<Rightarrow> bool" where
  "separator_free A =
     ((\<forall>x \<in> set (states A). 0x3B \<notin> set x \<and> \<not> has_arrow x)
      \<and> (\<forall>x \<in> set (alphabet A). 0x3B \<notin> set x)
      \<and> (\<forall>t \<in> set (getTransitionsArray A). \<not> has_arrow (tr_symbol t @ tr_to t)))"

text \<open>The text of a production, and the pairs stored in a production table.\<close>

definition enc :: "jsstring \<times> jsstring \<Rightarrow> jsstring" where
  "enc = (\<lambda>(l, r). l @ str ''->'' @ r)"

definition stored_of :: "(jsstring \<times> jsstring list) list \<Rightarrow> (jsstring \<times> jsstring) list" where
  "stored_of P = concat (map (\<lambda>(nonTerminal, prods). map (Pair nonTerminal) prods) P)"

definition clean_pair :: "RegularGrammar \<Rightarrow> jsstring \<times> jsstring \<Rightarrow> bool" where
  "clean_pair G = (\<lambda>(l, r). l \<in> set (nonTerminals G) \<and> trim l = l \<and> trim r = r
      \<and> \<not> has_arrow l \<and> \<not> has_arrow r)"

text \<open>
  An automaton as the parser builds it from the lines \<open>1:X:p;q\<close>, \<open>2:X:a\<close>, \<open>3:X:p;q\<close>,
  \<open>4:X:p;q\<close>: one state, named \<open>p;q\<close>, initial and final.
\<close>

definition fa_semicolon :: FiniteAutomaton where
  "fa_semicolon =
     \<lparr>name = str ''X'', states = [str ''p;q''], alphabet = [str ''a''],
      initialState = Some (str ''p;q''), finalStates = [str ''p;q''], transitions = [],
      currentState = None, executionPath = []\<rparr>"

section \<open>The definition of an automaton and its run\<close>

lemma reset_static: "reset A = reset (static A)"
  by (simp add: reset_def static_def)

lemma static_reset: "static (reset A) = static A"
  by (simp add: reset_def static_def Let_def split: option.splits)

section \<open>Acceptance against the transition table\<close>

lemma delta_named: "targets_named A \<Longrightarrow> delta A q a = Some p \<Longrightarrow> p \<noteq> []"
  unfolding targets_named_def delta_def
  by (auto split: option.splits dest!: map_of_SomeD) (metis snd_conv)

lemma static_fields:
  assumes "static B = static A"
  shows "alphabet B = alphabet A" "transitions B = transitions A" "finalStates B = finalStates A"
    "initialState B = initialState A"
proof -
  have "alphabet (static B) = alphabet (static A)" "transitions (static B) = transitions (static A)"
    "finalStates (static B) = finalStates (static A)" "initialState (static B) = initialState (static A)"
    using assms by simp_all
  then show "alphabet B = alphabet A" "transitions B = transitions A" "finalStates B = finalStates A"
    "initialState B = initialState A"
    by (simp_all add: static_def)
qed

lemma spec_walk_cong:
  "alphabet B = alphabet A \<Longrightarrow> transitions B = transitions A \<Longrightarrow> spec_walk B q w = spec_walk A q w"
  by (induction w arbitrary: q) (auto simp: delta_def split: option.splits)

lemma recognize_loop_accepts:
  assumes "targets_named A" and "currentState A = Some q" and "q \<noteq> []" and "\<not> accepted r"
  shows "accepted (fst (recognize_loop A w r))
       = (case spec_walk A q w of None \<Rightarrow> False | Some p \<Rightarrow> p \<in> set (finalStates A))"
  using assms
proof (induction w arbitrary: A q)
  case Nil
  then show ?case by simp
next
  case (Cons c cs)
  show ?case
  proof (cases "[c] \<in> set (alphabet A)")
    case False
    with Cons.prems show ?thesis by (simp add: processSymbol_def)
  next
    case inA: True
    show ?thesis
    proof (cases "delta A q [c]")
      case None
      with Cons.prems inA show ?thesis
        by (auto simp: processSymbol_def delta_def split: option.splits)
    next
      case (Some p)
      let ?B = "A\<lparr>currentState := Some p,
                  executionPath := executionPath A @
                    [\<lparr>state = p, symbol = Some [c], step = length (executionPath A)\<rparr>]\<rparr>"
      from Some Cons.prems inA have ps: "processSymbol A [c] = Inr (True, ?B)"
        by (auto simp: processSymbol_def delta_def split: option.splits)
      from Some Cons.prems(1) have pne: "p \<noteq> []" by (rule delta_named[rotated])
      have tn: "targets_named ?B" using Cons.prems(1) by (simp add: targets_named_def)
      have "accepted (fst (recognize_loop ?B cs r))
          = (case spec_walk ?B p cs of None \<Rightarrow> False | Some p' \<Rightarrow> p' \<in> set (finalStates ?B))"
        by (rule Cons.IH[OF tn _ pne Cons.prems(4)]) simp
      moreover have "spec_walk ?B p cs = spec_walk A p cs" by (rule spec_walk_cong) simp_all
      ultimately show ?thesis using ps Some inA by (simp split: option.splits)
    qed
  qed
qed

text \<open>
  C3 (as amended).  For an automaton whose initial state is set and is not the empty
  string, and none of whose transitions leads to the state named by the empty string,
  \<open>recognizeWord(w).accepted\<close> is true exactly when walking the transition table by hand
  consumes every code unit of \<open>w\<close> and ends in a final state.
\<close>

theorem recognizeWord_accepts:
  assumes "truthy (initialState A)" and "targets_named A"
  shows "accepted (fst (recognizeWord A w)) = spec_accepts A w"
proof -
  from assms(1) obtain q0 where q0: "initialState A = Some q0" "q0 \<noteq> []"
    by (cases "initialState A") auto
  let ?B = "reset A"
  have cs: "currentState ?B = Some q0" using q0 by (simp add: reset_def)
  have st: "static ?B = static A" by (rule static_reset)
  have tn: "targets_named ?B" using assms(2) static_fields(2)[OF st] by (simp add: targets_named_def)
  have "accepted (fst (recognizeWord A w))
      = (case spec_walk ?B q0 w of None \<Rightarrow> False | Some p \<Rightarrow> p \<in> set (finalStates ?B))"
    unfolding recognizeWord_def by (rule recognize_loop_accepts[OF tn cs q0(2)]) simp
  moreover have "spec_walk ?B q0 w = spec_walk A q0 w"
    by (rule spec_walk_cong) (simp_all add: static_fields[OF st])
  ultimately show ?thesis using q0 by (simp add: spec_accepts_def static_fields[OF st] split: option.splits)
qed

theorem recognizeWord_accepts_witness:
  "truthy (initialState fa_X) \<and> targets_named fa_X
   \<and> spec_accepts fa_X (str ''ba'') \<and> accepted (fst (recognizeWord fa_X (str ''ba'')))"
proof -
  have h1: "truthy (initialState fa_X)" by (simp add: fa_X_def str_def)
  have h2: "targets_named fa_X" by (simp add: fa_X_def targets_named_def str_def)
  have s: "spec_accepts fa_X (str ''ba'')"
    by (simp add: fa_X_def spec_accepts_def delta_def str_def)
  from recognizeWord_accepts[OF h1 h2, of "str ''ba''"] s h1 h2 show ?thesis by simp
qed

text \<open>The parser builds \<open>fa_empty_name\<close> from a text.\<close>

lemma parseFile_empty_name:
  "parseFile new_AutomataParser (join [0xA] [str ''1:X:q0,'', str ''2:X:a'', str ''3:X:q0'',
      str ''4:X:q0'', str ''5:X:q0,a,;,a,q0''])
   = Done \<lparr>automata = [(str ''X'', fa_empty_name)], grammars = []\<rparr> []"
  by code_simp

text \<open>
  The claim as stated fails when a state is named by the empty string:
  \<open>processSymbol\<close> takes the empty current state for "not initialized" and throws, so the
  word \<open>aa\<close>, which the table walks from q0 through the empty-named state back to the
  final state q0, is not accepted.
\<close>

theorem recognizeWord_accepts_counterexample:
  "truthy (initialState fa_empty_name)
   \<and> spec_accepts fa_empty_name (str ''aa'')
   \<and> \<not> accepted (fst (recognizeWord fa_empty_name (str ''aa'')))"
  by (simp add: fa_empty_name_def spec_accepts_def recognizeWord_def reset_def processSymbol_def
      delta_def str_def)

section \<open>Recognition is repeatable\<close>

lemma processSymbol_static:
  "processSymbol A a = Inr (b, B) \<Longrightarrow> static B = static A"
  unfolding processSymbol_def static_def
  by (auto split: if_splits option.splits)

lemma recognize_loop_static: "static (snd (recognize_loop A w r)) = static A"
proof (induction w arbitrary: A)
  case Nil
  show ?case by (simp add: static_def)
next
  case (Cons c cs)
  show ?case
  proof (cases "processSymbol A [c]")
    case (Inl e)
    then show ?thesis by simp
  next
    case (Inr bB)
    obtain b B where bB: "bB = (b, B)" by (cases bB)
    with Inr have "static B = static A" by (simp add: processSymbol_static)
    with Cons.IH[of B] Inr bB show ?thesis by simp
  qed
qed

lemma recognizeWord_static: "static (snd (recognizeWord A w)) = static A"
  unfolding recognizeWord_def by (simp add: recognize_loop_static static_reset)

lemma recognizeWord_cong: "static A = static B \<Longrightarrow> recognizeWord A w = recognizeWord B w"
  unfolding recognizeWord_def using reset_static[of A] reset_static[of B] by simp

text \<open>
  C4.  Calling \<open>recognizeWord\<close> again with the same word, on the automaton as the first
  call left it, gives the same result and leaves the automaton in the same condition;
  a call changes nothing of the automaton but \<open>currentState\<close> and \<open>executionPath\<close>.
  The function reads and writes its automaton only (it has no other argument and
  returns no other state), so nothing outside the instance is touched.
\<close>

theorem recognizeWord_idempotent:
  "recognizeWord (snd (recognizeWord A w)) w = recognizeWord A w
   \<and> (snd (recognizeWord A w))\<lparr>currentState := currentState A,
         executionPath := executionPath A\<rparr> = A"
proof
  show "recognizeWord (snd (recognizeWord A w)) w = recognizeWord A w"
    by (rule recognizeWord_cong) (rule recognizeWord_static)
  have "(static (snd (recognizeWord A w)))\<lparr>currentState := currentState A,
           executionPath := executionPath A\<rparr>
      = (static A)\<lparr>currentState := currentState A, executionPath := executionPath A\<rparr>"
    by (simp only: recognizeWord_static)
  then show "(snd (recognizeWord A w))\<lparr>currentState := currentState A,
                executionPath := executionPath A\<rparr> = A"
    by (simp add: static_def)
qed

section \<open>setFinalStates and a bad name\<close>

lemma setFinalStates_loop:
  assumes "\<forall>x \<in> set pre. trim x \<in> set (states B)" and "trim bad \<notin> set (states B)"
  shows "forEach (\<lambda>B x.
        let trimmedState = trim x in
        if trimmedState \<notin> set (states B) then Thrown (FinalStateMissing trimmedState) B []
        else Done (B\<lparr>finalStates := Set_add trimmedState (finalStates B)\<rparr>) [])
       (pre @ bad # post) B
     = Thrown (FinalStateMissing (trim bad))
         (B\<lparr>finalStates := fold (\<lambda>x S. Set_add (trim x) S) pre (finalStates B)\<rparr>) []"
  using assms
proof (induction pre arbitrary: B)
  case Nil
  then show ?case by simp
next
  case (Cons x pre)
  then show ?case by (simp add: Let_def)
qed

lemma set_fold_Set_add: "set (fold (\<lambda>x S. Set_add (f x) S) xs S0) = set S0 \<union> f ` set xs"
  by (induction xs arbitrary: S0) (auto simp: Set_add_def)

text \<open>
  C10.  \<open>setFinalStates\<close> empties the final-state set before it looks at its arguments.
  When the names \<open>pre\<close> are all states (after trimming) and the next name \<open>bad\<close> is not,
  the call throws for \<open>bad\<close>, and the automaton is left with exactly the trimmed names of
  \<open>pre\<close> as final states: whatever the set held before is gone.
\<close>

theorem setFinalStates_not_atomic:
  assumes "\<forall>x \<in> set pre. trim x \<in> set (states A)" and "trim bad \<notin> set (states A)"
  shows "setFinalStates A (pre @ bad # post)
           = Thrown (FinalStateMissing (trim bad))
               (A\<lparr>finalStates := fold (\<lambda>x S. Set_add (trim x) S) pre []\<rparr>) []
         \<and> set (fold (\<lambda>x S. Set_add (trim x) S) pre []) = trim ` set pre"
proof -
  have "setFinalStates A (pre @ bad # post)
      = Thrown (FinalStateMissing (trim bad))
         (A\<lparr>finalStates := fold (\<lambda>x S. Set_add (trim x) S) pre []\<rparr>) []"
    unfolding setFinalStates_def
    using setFinalStates_loop[of pre "A\<lparr>finalStates := []\<rparr>" bad post] assms
    by simp
  then show ?thesis by (simp add: set_fold_Set_add)
qed

theorem setFinalStates_not_atomic_witness:
  "trim (str ''q1'') \<in> set (states fa_q0_final)
   \<and> trim (str ''zz'') \<notin> set (states fa_q0_final)
   \<and> finalStates fa_q0_final = [str ''q0'']
   \<and> setFinalStates fa_q0_final [str ''q1'', str ''zz'', str ''q0'']
       = Thrown (FinalStateMissing (str ''zz'')) (fa_q0_final\<lparr>finalStates := [str ''q1'']\<rparr>) []"
proof -
  have h1: "\<forall>x \<in> set [str ''q1'']. trim x \<in> set (states fa_q0_final)"
    by (simp add: fa_q0_final_def str_def trim_def is_ws_def)
  have h2: "trim (str ''zz'') \<notin> set (states fa_q0_final)"
    by (simp add: fa_q0_final_def str_def trim_def is_ws_def)
  have t: "trim (str ''zz'') = str ''zz''" "trim (str ''q1'') = str ''q1''"
    by (simp_all add: str_def trim_def is_ws_def)
  from setFinalStates_not_atomic[OF h1 h2, of "[str ''q0'']"] h1 h2 t
  show ?thesis by (simp add: Set_add_def fa_q0_final_def)
qed

section \<open>The transition table stays deterministic\<close>

lemma filter_key_distinct:
  "distinct (map fst m) \<Longrightarrow>
     map snd (filter (\<lambda>e. fst e = k) m) = (case map_of m k of None \<Rightarrow> [] | Some v \<Rightarrow> [v])"
proof (induction m)
  case Nil
  then show ?case by simp
next
  case (Cons e m)
  then show ?case
    by (auto split: option.splits simp: filter_empty_conv map_of_eq_None_iff image_iff dest: map_of_SomeD)
qed

lemma row_entries_other:
  "f \<noteq> q \<Longrightarrow> filter (\<lambda>t. tr_from t = q \<and> tr_symbol t = a) (row_entries (f, row)) = []"
  by (auto simp: row_entries_def filter_empty_conv)

lemma row_entries_same:
  "map tr_to (filter (\<lambda>t. tr_from t = q \<and> tr_symbol t = a) (row_entries (q, row)))
     = map snd (filter (\<lambda>e. fst e = a) row)"
  by (induction row) (auto simp: row_entries_def)

lemma rows_other:
  "q \<notin> fst ` set T \<Longrightarrow>
     filter (\<lambda>t. tr_from t = q \<and> tr_symbol t = a) (concat (map row_entries T)) = []"
  by (induction T) (auto simp: row_entries_other)

lemma entries_lookup:
  assumes "distinct (map fst T)" and "\<forall>row \<in> set (map snd T). distinct (map fst row)"
  shows "map tr_to (filter (\<lambda>t. tr_from t = q \<and> tr_symbol t = a) (concat (map row_entries T)))
      = (case (case map_of T q of None \<Rightarrow> None | Some r \<Rightarrow> map_of r a) of
           None \<Rightarrow> [] | Some p \<Rightarrow> [p])"
  using assms
proof (induction T)
  case Nil
  then show ?case by simp
next
  case (Cons e T)
  obtain f row where e: "e = (f, row)" by (cases e)
  show ?case
  proof (cases "f = q")
    case True
    with Cons.prems e have "q \<notin> fst ` set T" by auto
    then have "filter (\<lambda>t. tr_from t = q \<and> tr_symbol t = a) (concat (map row_entries T)) = []"
      by (rule rows_other)
    moreover have "distinct (map fst row)" using Cons.prems e by simp
    ultimately show ?thesis using True e
      by (simp add: row_entries_same filter_key_distinct)
  next
    case False
    with Cons e show ?thesis by (simp add: row_entries_other)
  qed
qed

lemma entries_for_delta:
  "transitions_ok A \<Longrightarrow> entries_for A q a = (case delta A q a of None \<Rightarrow> [] | Some p \<Rightarrow> [p])"
  unfolding entries_for_def getTransitionsArray_def delta_def transitions_ok_def
  using entries_lookup[of "transitions A" q a] by (simp add: row_entries_def)

lemma set_update_subset: "set (AList.update k v al) \<subseteq> insert (k, v) (set al)"
  by (induction al) auto

lemma addTransition_Done:
  assumes "addTransition A f s t = Done B w"
  shows "trim f \<in> set (states A) \<and> trim t \<in> set (states A) \<and> trim s \<in> set (alphabet A)
       \<and> B = A\<lparr>transitions := AList.update (trim f)
               (AList.update (trim s) (trim t) (row_of (transitions A) (trim f))) (transitions A)\<rparr>
       \<and> w = (case delta A (trim f) (trim s) of None \<Rightarrow> [] | Some old \<Rightarrow> [Overwrite (trim f) (trim s) old (trim t)])"
  using assms unfolding addTransition_def Let_def Map_has_def row_of_def delta_def
  by (auto split: if_splits option.splits simp: AList.update_conv' AList.update_triv)

lemma addTransition_ok:
  assumes "transitions_ok A" and "addTransition A f s t = Done B w"
  shows "transitions_ok B"
proof -
  let ?row = "AList.update (trim s) (trim t) (row_of (transitions A) (trim f))"
  from addTransition_Done[OF assms(2)]
  have B: "transitions B = AList.update (trim f) ?row (transitions A)" by simp
  have "distinct (map fst (row_of (transitions A) (trim f)))"
    using assms(1) unfolding transitions_ok_def row_of_def
    by (auto split: option.splits dest!: map_of_SomeD)
  then have r: "distinct (map fst ?row)" by (rule AList.distinct_update)
  have "snd ` set (transitions B) \<subseteq> insert ?row (snd ` set (transitions A))"
    unfolding B using set_update_subset[of "trim f" ?row "transitions A"] by auto
  then have "\<forall>row \<in> snd ` set (transitions B). distinct (map fst row)"
  proof (intro ballI)
    fix row
    assume sub: "snd ` set (transitions B) \<subseteq> insert ?row (snd ` set (transitions A))"
      and "row \<in> snd ` set (transitions B)"
    then have "row = ?row \<or> row \<in> snd ` set (transitions A)" by blast
    then show "distinct (map fst row)"
      using r assms(1) unfolding transitions_ok_def by auto
  qed
  moreover have "distinct (map fst (transitions B))"
    unfolding B using assms(1) by (simp add: transitions_ok_def AList.distinct_update)
  ultimately show ?thesis
    unfolding transitions_ok_def by simp
qed

lemma addTransitions_ok:
  assumes "transitions_ok A"
    and "addTransitions A cs = Done A' ws"
  shows "transitions_ok A'"
  using assms unfolding addTransitions_def
proof (induction cs arbitrary: A ws)
  case Nil
  then show ?case by simp
next
  case (Cons c cs)
  obtain f s t where c: "c = (f, s, t)" by (cases c)
  show ?case
  proof (cases "addTransition A f s t")
    case (Done B w)
    with Cons.prems c obtain w' where "forEach (\<lambda>B (f, s, t). addTransition B f s t) cs B = Done A' w'"
      by (auto split: outcome.splits)
    moreover have "transitions_ok B" using Cons.prems(1) Done by (rule addTransition_ok)
    ultimately show ?thesis by (rule Cons.IH[rotated])
  next
    case (Thrown e B w)
    with Cons.prems c show ?thesis by simp
  qed
qed

lemma new_FiniteAutomaton_ok: "transitions_ok (new_FiniteAutomaton n)"
  by (simp add: transitions_ok_def new_FiniteAutomaton_def)

text \<open>
  The other ways to reach the table keep it a proper \<open>Map\<close> too: \<open>setTransitions\<close>, also
  when it throws half way.
\<close>

lemma forEach_invariant:
  assumes "\<And>s x. I s \<Longrightarrow> I (state_after (f s x))" and "I s"
  shows "I (state_after (forEach f xs s))"
  using assms(2)
proof (induction xs arbitrary: s)
  case Nil
  then show ?case by simp
next
  case (Cons x xs)
  from assms(1)[OF Cons.prems, of x] show ?case
  proof (cases "f s x")
    case (Done t w)
    with assms(1)[OF Cons.prems, of x] have "I t" by simp
    from Cons.IH[OF this] Done show ?thesis by (cases "forEach f xs t") auto
  next
    case (Thrown e t w)
    with assms(1)[OF Cons.prems, of x] show ?thesis by simp
  qed
qed

lemma addTransition_after_ok:
  "transitions_ok A \<Longrightarrow> transitions_ok (state_after (addTransition A f s t))"
proof (cases "addTransition A f s t")
  case (Done B w)
  assume "transitions_ok A"
  then show ?thesis using Done addTransition_ok by simp
next
  case (Thrown e B w)
  assume ok: "transitions_ok A"
  from Thrown have "B = A" unfolding addTransition_def Let_def by (auto split: if_splits)
  with ok Thrown show ?thesis by simp
qed

lemma setTransitions_ok:
  assumes "transitions_ok A"
  shows "transitions_ok (state_after (setTransitions A text))"
  unfolding setTransitions_def
proof (rule forEach_invariant[where I = transitions_ok, OF _ assms])
  fix s :: FiniteAutomaton and x
  assume "transitions_ok s"
  then show "transitions_ok (state_after (case split_chr 0x2C (trim x) of
          [fromState, smb, toState] \<Rightarrow> addTransition s fromState smb toState
        | _ \<Rightarrow> Thrown (TransitionFormat x) s []))"
    by (auto split: list.splits simp: addTransition_after_ok)
qed

lemma addTransition_overwrite:
  assumes "delta A (trim f) (trim s) = Some old"
    and "trim f \<in> set (states A)" and "trim t \<in> set (states A)" and "trim s \<in> set (alphabet A)"
  shows "\<exists>B. addTransition A f s t = Done B [Overwrite (trim f) (trim s) old (trim t)]
           \<and> delta B (trim f) (trim s) = Some (trim t)"
  using assms unfolding addTransition_def Let_def Map_has_def row_of_def delta_def
  by (auto split: option.splits simp: AList.update_conv')

text \<open>
  C5.  Take an automaton whose table is a proper \<open>Map\<close> (as that of a new automaton is)
  and run any sequence of \<open>addTransition\<close> calls that all return.  Then the table is
  still a proper \<open>Map\<close>; for every pair (state, symbol) the transition list holds at
  most one entry, namely the target that the table lookup gives; and registering a
  pair that is present again (with known states and symbol) returns normally, with
  one overwrite warning naming the old and the new target, and the lookup then gives the
  new target.
\<close>

theorem addTransition_deterministic:
  assumes "transitions_ok A" and "addTransitions A cs = Done A' ws"
  shows "transitions_ok A'
       \<and> entries_for A' q a = (case delta A' q a of None \<Rightarrow> [] | Some p \<Rightarrow> [p])
       \<and> length (entries_for A' q a) \<le> 1
       \<and> (delta A' (trim f) (trim s) = Some old \<and> trim f \<in> set (states A')
            \<and> trim t \<in> set (states A') \<and> trim s \<in> set (alphabet A')
          \<longrightarrow> (\<exists>B. addTransition A' f s t = Done B [Overwrite (trim f) (trim s) old (trim t)]
                  \<and> delta B (trim f) (trim s) = Some (trim t)))"
proof -
  have ok: "transitions_ok A'" using assms by (rule addTransitions_ok)
  then have e: "entries_for A' q a = (case delta A' q a of None \<Rightarrow> [] | Some p \<Rightarrow> [p])"
    by (rule entries_for_delta)
  then have "length (entries_for A' q a) \<le> 1" by (simp split: option.splits)
  with ok e show ?thesis using addTransition_overwrite[of A' f s old t] by blast
qed

theorem addTransition_deterministic_witness:
  "transitions_ok fa_q0_final
   \<and> addTransitions fa_q0_final
        [(str ''q0'', str ''a'', str ''q1''), (str '' q0'', str ''a '', str ''q0'')]
      = Done (fa_q0_final\<lparr>transitions := [(str ''q0'', [(str ''a'', str ''q0'')])]\<rparr>)
          [Overwrite (str ''q0'') (str ''a'') (str ''q1'') (str ''q0'')]
   \<and> entries_for (fa_q0_final\<lparr>transitions := [(str ''q0'', [(str ''a'', str ''q0'')])]\<rparr>)
        (str ''q0'') (str ''a'') = [str ''q0'']
   \<and> (\<exists>B. addTransition (fa_q0_final\<lparr>transitions := [(str ''q0'', [(str ''a'', str ''q0'')])]\<rparr>)
          (str ''q0'') (str ''a'') (str ''q1'')
        = Done B [Overwrite (str ''q0'') (str ''a'') (str ''q0'') (str ''q1'')]
        \<and> delta B (str ''q0'') (str ''a'') = Some (str ''q1''))"
proof -
  let ?A' = "fa_q0_final\<lparr>transitions := [(str ''q0'', [(str ''a'', str ''q0'')])]\<rparr>"
  have h1: "transitions_ok fa_q0_final" by (simp add: transitions_ok_def fa_q0_final_def)
  have tr: "trim (str ''q0'') = str ''q0''" "trim (str ''q1'') = str ''q1''"
    "trim (str ''a'') = str ''a''" "trim (str '' q0'') = str ''q0''" "trim (str ''a '') = str ''a''"
    by (simp_all add: str_def trim_def is_ws_def)
  have h2: "addTransitions fa_q0_final
        [(str ''q0'', str ''a'', str ''q1''), (str '' q0'', str ''a '', str ''q0'')]
      = Done ?A' [Overwrite (str ''q0'') (str ''a'') (str ''q1'') (str ''q0'')]"
    by (simp add: addTransitions_def addTransition_def tr Map_has_def row_of_def fa_q0_final_def
        Let_def)
  have d: "delta ?A' (str ''q0'') (str ''a'') = Some (str ''q0'')"
    by (simp add: delta_def)
  have m: "str ''q0'' \<in> set (states ?A')" "str ''q1'' \<in> set (states ?A')"
    "str ''a'' \<in> set (alphabet ?A')"
    by (simp_all add: fa_q0_final_def)
  from addTransition_deterministic[OF h1 h2, of "str ''q0''" "str ''a''" "str ''q0''" "str ''a''"
      "str ''q0''" "str ''q1''"] h1 h2 d m
  show ?thesis by (simp add: tr)
qed

section \<open>From automaton to grammar and back\<close>

lemma parseFile_file_X:
  "parseFile new_AutomataParser file_X = Done \<lparr>automata = [(str ''X'', fa_X)], grammars = []\<rparr> []"
  by code_simp

lemma validate_fa_X: "validate fa_X = \<lparr>isValid = True, errors = [], warnings = []\<rparr>"
  by code_simp

lemma toRegularGrammar_fa_X: "toRegularGrammar fa_X = Returned gr_X []"
  by code_simp

lemma toFiniteAutomaton_gr_X: "toFiniteAutomaton gr_X = Returned fa_X_back []"
  by code_simp

lemma fa_X_accepts_aa: "accepted (fst (recognizeWord fa_X (str ''aa'')))"
  by code_simp

lemma fa_X_back_rejects_aa: "\<not> accepted (fst (recognizeWord fa_X_back (str ''aa'')))"
  by code_simp

text \<open>
  C1 (the code differs).  The automaton X of the specification's parser example is valid
  and complete (\<open>validate\<close> gives no error and no warning) and accepts \<open>aa\<close>.  Its
  grammar has the right-hand sides \<open>aq1\<close>, \<open>a\<close>, \<open>bq0\<close>; \<open>toFiniteAutomaton\<close> skips the
  ones of three code units and keeps only the transitions on \<open>a\<close> into the added state
  \<open>qf\<close>, so the automaton that comes back rejects \<open>aa\<close>.
\<close>

theorem roundtrip_changes_language:
  "parseFile new_AutomataParser file_X
     = Done \<lparr>automata = [(str ''X'', fa_X)], grammars = []\<rparr> []
   \<and> validate fa_X = \<lparr>isValid = True, errors = [], warnings = []\<rparr>
   \<and> toRegularGrammar fa_X = Returned gr_X []
   \<and> toFiniteAutomaton gr_X = Returned fa_X_back []
   \<and> accepted (fst (recognizeWord fa_X (str ''aa'')))
   \<and> \<not> accepted (fst (recognizeWord fa_X_back (str ''aa'')))"
  using parseFile_file_X validate_fa_X toRegularGrammar_fa_X toFiniteAutomaton_gr_X
    fa_X_accepts_aa fa_X_back_rejects_aa
  by blast

theorem roundtrip_changes_language_witness:
  "isValid (validate fa_X) \<and> warnings (validate fa_X) = []
   \<and> accepted (fst (recognizeWord fa_X (str ''aa'')))
   \<and> \<not> accepted (fst (recognizeWord fa_X_back (str ''aa'')))"
  using roundtrip_changes_language by simp

text \<open>
  With one-letter state names nothing is skipped, but \<open>A -> aB\<close> and \<open>A -> a\<close> both
  become a transition of (A, a), and the second overwrites the first: the automaton that
  comes back again accepts only the word \<open>a\<close>.
\<close>

lemma letters_roundtrip_rejects_aa:
  "validate fa_Y = \<lparr>isValid = True, errors = [], warnings = []\<rparr>
   \<and> toRegularGrammar fa_Y = Returned gr_Y []
   \<and> toFiniteAutomaton gr_Y = Returned fa_Y_back
        [Overwrite (str ''A'') (str ''a'') (str ''B'') (str ''qf''),
         Overwrite (str ''B'') (str ''a'') (str ''B'') (str ''qf'')]
   \<and> accepted (fst (recognizeWord fa_Y (str ''aa'')))
   \<and> \<not> accepted (fst (recognizeWord fa_Y_back (str ''aa'')))"
proof -
  have "validate fa_Y = \<lparr>isValid = True, errors = [], warnings = []\<rparr>" by code_simp
  moreover have "toRegularGrammar fa_Y = Returned gr_Y []" by code_simp
  moreover have "toFiniteAutomaton gr_Y = Returned fa_Y_back
        [Overwrite (str ''A'') (str ''a'') (str ''B'') (str ''qf''),
         Overwrite (str ''B'') (str ''a'') (str ''B'') (str ''qf'')]" by code_simp
  moreover have "accepted (fst (recognizeWord fa_Y (str ''aa'')))" by code_simp
  moreover have "\<not> accepted (fst (recognizeWord fa_Y_back (str ''aa'')))" by code_simp
  ultimately show ?thesis by blast
qed

section \<open>Validation of a grammar\<close>

lemma singleton_nth: "length xs = 1 \<Longrightarrow> [xs ! 0] = xs"
  by (cases xs) auto

lemma production_issues_empty:
  "production_issues G n rhs = [] \<longleftrightarrow> spec_rhs_valid G rhs"
  unfolding production_issues_def spec_rhs_valid_def
  by (cases rhs rule: list.exhaust; cases "tl rhs"; cases "tl (tl rhs)") (auto simp: singleton_nth)

lemma production_issues_long:
  "2 < length rhs \<Longrightarrow> production_issues G n rhs = [NotRegular n rhs]"
  unfolding production_issues_def by (auto simp: epsilon_def)

lemma production_issues_in_errors:
  assumes "(n, rhs) \<in> set (stored G)"
  shows "set (production_issues G n rhs) \<subseteq> set (errors (validateGrammar G))"
  using assms unfolding stored_def validateGrammar_def Let_def by fastforce

lemma concat_empty_stored:
  "concat (map (\<lambda>(nonTerminal, prods). concat (map (production_issues G nonTerminal) prods)) P) = []
    \<longleftrightarrow> (\<forall>(n, rhs) \<in> set (concat (map (\<lambda>(nonTerminal, prods). map (Pair nonTerminal) prods) P)).
          production_issues G n rhs = [])"
  by (auto simp: split_def) 

text \<open>
  C9 (as amended).  \<open>validate()\<close> of a grammar classifies every stored right-hand side
  as the specification says, with lengths and positions counted in UTF-16 code units (as
  \<open>production.length\<close> and \<open>production[i]\<close> count): the grammar is valid exactly when the
  four sets are non-empty and every stored right-hand side is valid in that sense; a
  right-hand side produces no error entry exactly when it is valid in that sense; the
  entries it produces are in the error list; and one longer than two code units is
  reported by an entry that names the production (nonterminal and right-hand side).
\<close>

theorem validateGrammar_classifies:
  "(isValid (validateGrammar G) \<longleftrightarrow>
      nonTerminals G \<noteq> [] \<and> terminals G \<noteq> [] \<and> truthy (startSymbol G) \<and> productions G \<noteq> []
      \<and> (\<forall>(n, rhs) \<in> set (stored G). spec_rhs_valid G rhs))
   \<and> (\<forall>(n, rhs) \<in> set (stored G).
         (production_issues G n rhs = [] \<longleftrightarrow> spec_rhs_valid G rhs)
         \<and> set (production_issues G n rhs) \<subseteq> set (errors (validateGrammar G))
         \<and> (2 < length rhs \<longrightarrow> NotRegular n rhs \<in> set (errors (validateGrammar G))))"
proof -
  have a: "isValid (validateGrammar G) \<longleftrightarrow>
      nonTerminals G \<noteq> [] \<and> terminals G \<noteq> [] \<and> truthy (startSymbol G) \<and> productions G \<noteq> []
      \<and> (\<forall>(n, rhs) \<in> set (stored G). spec_rhs_valid G rhs)"
    unfolding validateGrammar_def Let_def stored_def
    by (simp add: concat_empty_stored production_issues_empty del: concat_eq_Nil_conv)
  have b: "\<forall>(n, rhs) \<in> set (stored G).
         (production_issues G n rhs = [] \<longleftrightarrow> spec_rhs_valid G rhs)
         \<and> set (production_issues G n rhs) \<subseteq> set (errors (validateGrammar G))
         \<and> (2 < length rhs \<longrightarrow> NotRegular n rhs \<in> set (errors (validateGrammar G)))"
  proof (clarify, intro conjI impI)
    fix n rhs assume s: "(n, rhs) \<in> set (stored G)"
    show "production_issues G n rhs = [] \<longleftrightarrow> spec_rhs_valid G rhs" by (rule production_issues_empty)
    show sub: "set (production_issues G n rhs) \<subseteq> set (errors (validateGrammar G))"
      using s by (rule production_issues_in_errors)
    assume "2 < length rhs"
    then have "production_issues G n rhs = [NotRegular n rhs]" by (rule production_issues_long)
    with sub show "NotRegular n rhs \<in> set (errors (validateGrammar G))" by simp
  qed
  from a b show ?thesis by blast
qed


theorem validateGrammar_classifies_witness:
  "(str ''A'', str ''abc'') \<in> set (stored gr_shapes)
   \<and> NotRegular (str ''A'') (str ''abc'') \<in> set (errors (validateGrammar gr_shapes))
   \<and> \<not> isValid (validateGrammar gr_shapes)
   \<and> production_issues gr_shapes (str ''A'') epsilon = []
   \<and> production_issues gr_shapes (str ''A'') (str ''a'') = []
   \<and> production_issues gr_shapes (str ''A'') (str ''aB'') = []
   \<and> errors (validateGrammar gr_shapes) = [NotRegular (str ''A'') (str ''abc'')]"
proof -
  have st: "stored gr_shapes = [(str ''A'', str ''abc''), (str ''A'', epsilon),
      (str ''A'', str ''a''), (str ''A'', str ''aB'')]"
    by (simp add: stored_def gr_shapes_def)
  have v: "\<not> spec_rhs_valid gr_shapes (str ''abc'')" "spec_rhs_valid gr_shapes epsilon"
    "spec_rhs_valid gr_shapes (str ''a'')" "spec_rhs_valid gr_shapes (str ''aB'')"
    by (simp_all add: spec_rhs_valid_def gr_shapes_def str_def epsilon_def)
  have l: "2 < length (str ''abc'')" by (simp add: str_def)
  have e: "errors (validateGrammar gr_shapes) = [NotRegular (str ''A'') (str ''abc'')]"
    by code_simp
  from validateGrammar_classifies[of gr_shapes] st v l e show ?thesis by simp
qed

text \<open>
  The claim as stated, by code points, fails for a terminal outside the Basic
  Multilingual Plane: U+1F600 is one code point and a declared terminal, yet the
  production \<open>A -> U+1F600\<close> has \<open>length\<close> 2, its first code unit is no terminal, and
  \<open>validate()\<close> reports it as badly formed.  The parser builds this grammar from a text.
\<close>

lemma parseFile_gr_emoji:
  "parseFile new_AutomataParser
     (join [0xA] [str ''6:G:A'', str ''7:G:'' @ emoji, str ''8:G:A'', str ''9:G:A->'' @ emoji])
   = Done \<lparr>automata = [(str ''G'', new_FiniteAutomaton (str ''G''))],
            grammars = [(str ''G'', gr_emoji)]\<rparr> []"
  by code_simp

theorem validateGrammar_classifies_counterexample:
  "code_points emoji = [emoji]
   \<and> emoji \<in> set (terminals gr_emoji)
   \<and> spec_rhs_valid_points gr_emoji emoji
   \<and> (str ''A'', emoji) \<in> set (stored gr_emoji)
   \<and> production_issues gr_emoji (str ''A'') emoji = [InvalidFormat (str ''A'') emoji]
   \<and> errors (validateGrammar gr_emoji) = [InvalidFormat (str ''A'') emoji]
   \<and> \<not> isValid (validateGrammar gr_emoji)"
proof -
  have "code_points emoji = [emoji]" by code_simp
  moreover have "emoji \<in> set (terminals gr_emoji)" by code_simp
  moreover have "spec_rhs_valid_points gr_emoji emoji" by code_simp
  moreover have "(str ''A'', emoji) \<in> set (stored gr_emoji)" by code_simp
  moreover have "production_issues gr_emoji (str ''A'') emoji = [InvalidFormat (str ''A'') emoji]"
    by code_simp
  moreover have "errors (validateGrammar gr_emoji) = [InvalidFormat (str ''A'') emoji]"
    by code_simp
  moreover have "\<not> isValid (validateGrammar gr_emoji)" by code_simp
  ultimately show ?thesis by blast
qed

section \<open>The parser\<close>










text \<open>
  When a blank line comes before it, the number in the error is not the number of the
  line in the text: the index is taken after the blank lines have been filtered out.
  Here the wrongly shaped line is the second line and the error says line 1.
\<close>

lemma parseFile_number_after_blank_line:
  "split_chr 0xA ([0xA] @ str ''zz'') = [[], str ''zz'']
   \<and> parseFile new_AutomataParser ([0xA] @ str ''zz'')
       = Thrown (LineError 1 (LineFormat (str ''zz''))) new_AutomataParser []"
proof -
  have "split_chr 0xA ([0xA] @ str ''zz'') = [[], str ''zz'']" by code_simp
  moreover have "parseFile new_AutomataParser ([0xA] @ str ''zz'')
       = Thrown (LineError 1 (LineFormat (str ''zz''))) new_AutomataParser []" by code_simp
  ultimately show ?thesis by blast
qed













lemma on_automaton_keeps:
  "Map_has (automata P) k \<Longrightarrow> Map_has (automata (state_after (on_automaton P nm f))) k"
  unfolding on_automaton_def Map_has_def
  by (cases "map_of (automata P) nm"; cases "f (the (map_of (automata P) nm))")
     (auto simp: AList.update_conv')

lemma on_grammar_keeps:
  "Map_has (automata P) k \<Longrightarrow> Map_has (automata (state_after (on_grammar (ensure_grammar P nm) nm f))) k"
proof -
  assume h: "Map_has (automata P) k"
  have a: "automata (ensure_grammar P nm) = automata P" by (simp add: ensure_grammar_def)
  show ?thesis
    unfolding on_grammar_def
    using h a
    by (cases "map_of (grammars (ensure_grammar P nm)) nm";
        cases "f (the (map_of (grammars (ensure_grammar P nm)) nm))") auto
qed

lemma ensure_automaton_has: "Map_has (automata (ensure_automaton P nm)) nm"
  by (auto simp: ensure_automaton_def Map_has_def AList.update_conv')

lemma parseLine_creates_automaton:
  assumes "split_chr 0x3A line = [idInfo, nmF, info]"
  shows "Map_has (automata (state_after (parseLine P line))) (trim nmF)"
  unfolding parseLine_def Let_def assms
  using on_automaton_keeps[OF ensure_automaton_has] on_grammar_keeps[OF ensure_automaton_has]
    ensure_automaton_has
  by simp

text \<open>
  C8 (the code differs).  A file with the single line \<open>6:G:S,A\<close>, a grammar code, leaves
  an empty automaton named G in the automata collection next to the grammar G.
\<close>

theorem grammar_line_creates_automaton:
  "parseFile new_AutomataParser (str ''6:G:S,A'')
     = Done \<lparr>automata = [(str ''G'', new_FiniteAutomaton (str ''G''))],
              grammars = [(str ''G'',
                (new_RegularGrammar (str ''G''))\<lparr>nonTerminals := [str ''S'', str ''A'']\<rparr>)]\<rparr> []
   \<and> Map_has [(str ''G'', new_FiniteAutomaton (str ''G''))] (str ''G'')"
proof -
  have "parseFile new_AutomataParser (str ''6:G:S,A'')
     = Done \<lparr>automata = [(str ''G'', new_FiniteAutomaton (str ''G''))],
              grammars = [(str ''G'',
                (new_RegularGrammar (str ''G''))\<lparr>nonTerminals := [str ''S'', str ''A'']\<rparr>)]\<rparr> []"
    by code_simp
  then show ?thesis by (simp add: Map_has_def)
qed

section \<open>From automaton to grammar\<close>

lemma trim_id_iff: "trim s = s \<longleftrightarrow> (s = [] \<or> (\<not> is_ws (hd s) \<and> \<not> is_ws (last s)))"
proof (cases s)
  case Nil
  then show ?thesis by (simp add: trim_def)
next
  case (Cons c cs)
  show ?thesis
  proof (cases "is_ws c")
    case True
    have "length (trim s) \<le> length (dropWhile is_ws s)"
      unfolding trim_def using length_dropWhile_le[of is_ws "rev (dropWhile is_ws s)"] by simp
    also have "\<dots> < length s" using Cons True
      by (simp add: length_dropWhile_le le_imp_less_Suc)
    finally have "trim s \<noteq> s" by auto
    with Cons True show ?thesis by simp
  next
    case False
    then have d: "dropWhile is_ws s = s" using Cons by simp
    have ne: "rev s \<noteq> []" using Cons by simp
    show ?thesis
    proof (cases "is_ws (last s)")
      case True
      then have "is_ws (hd (rev s))" using ne by (simp add: hd_rev)
      then have "length (dropWhile is_ws (rev s)) < length (rev s)" using ne
        by (cases "rev s") (auto simp: length_dropWhile_le le_imp_less_Suc)
      then have "trim s \<noteq> s" unfolding trim_def d by (metis length_rev nat_neq_iff)
      with Cons True show ?thesis by simp
    next
      case l: False
      then have "\<not> is_ws (hd (rev s))" using ne by (simp add: hd_rev)
      then have "dropWhile is_ws (rev s) = rev s" using ne by (cases "rev s") auto
      then have "trim s = s" unfolding trim_def d by simp
      with Cons False l show ?thesis by simp
    qed
  qed
qed

lemma trim_append: "trim x = x \<Longrightarrow> trim y = y \<Longrightarrow> trim (x @ y) = x @ y"
  by (auto simp: trim_id_iff hd_append last_append)

lemma trim_epsilon: "trim epsilon = epsilon"
  by (simp add: trim_def epsilon_def is_ws_def)

lemma trim_arrow_str: "trim (str ''->'') = str ''->''"
  by (simp add: trim_def str_def is_ws_def)

lemma trim_arrow: "trim x = x \<Longrightarrow> trim y = y \<Longrightarrow> trim (x @ str ''->'' @ y) = x @ str ''->'' @ y"
  by (intro trim_append trim_arrow_str)

lemma trim_trim: "trim (trim s) = trim s"
proof -
  have "trim s = [] \<or> (\<not> is_ws (hd (trim s)) \<and> \<not> is_ws (last (trim s)))"
  proof (cases "trim s = []")
    case True then show ?thesis by simp
  next
    case False
    define u where "u = dropWhile is_ws (rev (dropWhile is_ws s))"
    have t: "trim s = rev u" by (simp add: trim_def u_def)
    with False have une: "u \<noteq> []" by simp
    have "\<not> is_ws (hd u)" using une unfolding u_def by (rule hd_dropWhile)
    then have l: "\<not> is_ws (last (trim s))" using t une by (simp add: last_rev)
    have "dropWhile is_ws s \<noteq> []"
    proof
      assume a: "dropWhile is_ws s = []"
      have "u = dropWhile is_ws (rev [])" unfolding u_def a ..
      with une show False by simp
    qed
    then have h: "\<not> is_ws (hd (dropWhile is_ws s))" by (rule hd_dropWhile)
    have "\<exists>v. rev (dropWhile is_ws s) = v @ u" unfolding u_def
      by (metis takeWhile_dropWhile_id)
    then obtain v where "rev (dropWhile is_ws s) = v @ u" by blast
    then have "dropWhile is_ws s = rev u @ rev v" by (metis rev_append rev_rev_ident)
    with une have "hd (dropWhile is_ws s) = hd (rev u)" by simp
    with h t have "\<not> is_ws (hd (trim s))" by simp
    with l show ?thesis by simp
  qed
  then show ?thesis by (simp add: trim_id_iff)
qed

lemma split_chr_clean: "d \<notin> set x \<Longrightarrow> split_chr d x = [x]"
  by (induction x) auto

lemma split_chr_append:
  "d \<notin> set x \<Longrightarrow> split_chr d (x @ d # rest) = x # split_chr d rest"
  by (induction x) auto

lemma split_chr_join:
  "xs \<noteq> [] \<Longrightarrow> \<forall>x \<in> set xs. d \<notin> set x \<Longrightarrow> split_chr d (join [d] xs) = xs"
proof (induction xs)
  case Nil
  then show ?case by simp
next
  case (Cons x xs)
  then show ?case by (cases xs) (auto simp: split_chr_clean split_chr_append)
qed

lemma split_arrow_clean: "\<not> has_arrow x \<Longrightarrow> split_arrow x = [x]"
  by (induction x rule: has_arrow.induct) auto

lemma split_arrow_sides:
  "\<not> has_arrow l \<Longrightarrow> \<not> has_arrow r \<Longrightarrow> split_arrow (l @ str ''->'' @ r) = [l, r]"
proof (induction l rule: has_arrow.induct)
  case 1
  then show ?case by (simp add: str_def split_arrow_clean)
next
  case (2 c)
  then show ?case by (simp add: str_def split_arrow_clean)
next
  case (3 c d cs)
  then show ?case by (auto simp: str_def)
qed

lemma has_arrow_append: "has_arrow x \<Longrightarrow> has_arrow (x @ y)"
  by (induction x rule: has_arrow.induct) auto

lemma has_arrow_epsilon: "\<not> has_arrow epsilon"
  by (simp add: epsilon_def)

lemma production_strings_enc:
  "production_strings A q0 = map enc (expected_productions A q0)"
proof -
  have row: "\<And>f row. concat (map (\<lambda>(smb, toState).
            (f @ str ''->'' @ smb @ toState)
            # (if toState \<in> set (finalStates A) then [f @ str ''->'' @ smb] else [])) row)
       = map enc (concat (map (\<lambda>t. (tr_from t, tr_symbol t @ tr_to t)
                     # (if tr_to t \<in> set (finalStates A) then [(tr_from t, tr_symbol t)] else []))
              (map (\<lambda>(smb, toState). \<lparr>tr_from = f, tr_symbol = smb, tr_to = toState\<rparr>) row)))"
    subgoal for f row by (induction row) (auto simp: enc_def)
    done
  have tab: "\<And>T. concat (map (\<lambda>(fromState, stateTransitions).
        concat (map (\<lambda>(smb, toState).
            (fromState @ str ''->'' @ smb @ toState)
            # (if toState \<in> set (finalStates A) then [fromState @ str ''->'' @ smb] else []))
          stateTransitions)) T)
     = map enc (concat (map (\<lambda>t. (tr_from t, tr_symbol t @ tr_to t)
                     # (if tr_to t \<in> set (finalStates A) then [(tr_from t, tr_symbol t)] else []))
              (concat (map (\<lambda>(fromState, stateTransitions).
        map (\<lambda>(smb, toState). \<lparr>tr_from = fromState, tr_symbol = smb, tr_to = toState\<rparr>)
          stateTransitions) T))))"
    subgoal for T by (induction T) (auto simp: row)
    done
  show ?thesis
    unfolding production_strings_def expected_productions_def getTransitionsArray_def
    by (simp add: tab enc_def)
qed

lemma stored_update:
  "set (stored_of (AList.update l (rhs_of P l @ [r]) P)) = insert (l, r) (set (stored_of P))"
proof (induction P)
  case Nil
  then show ?case by (simp add: stored_of_def rhs_of_def)
next
  case (Cons e P)
  obtain k v where e: "e = (k, v)" by (cases e)
  show ?case
  proof (cases "k = l")
    case True
    with e show ?thesis by (auto simp: stored_of_def rhs_of_def)
  next
    case False
    then have "rhs_of (e # P) l = rhs_of P l" using e by (simp add: rhs_of_def)
    with Cons False e show ?thesis by (auto simp: stored_of_def)
  qed
qed

lemma addProduction_clean:
  assumes "l \<in> set (nonTerminals G)" and "trim l = l" and "trim r = r"
  shows "addProduction G l r
       = Done (G\<lparr>productions := AList.update l (rhs_of (productions G) l @ [r]) (productions G)\<rparr>) []"
proof (cases "Map_has (productions G) l")
  case True
  with assms show ?thesis by (simp add: addProduction_def Let_def)
next
  case False
  then have n: "map_of (productions G) l = None" by (simp add: Map_has_def)
  then have "rhs_of (productions G) l = []" by (simp add: rhs_of_def)
  moreover have "rhs_of (AList.update l [] (productions G)) l = []"
    by (simp add: rhs_of_def AList.update_conv')
  ultimately show ?thesis using assms False by (simp add: addProduction_def Let_def)
qed

lemma setProductions_loop:
  assumes "\<forall>p \<in> set ps. clean_pair G p"
  shows "\<exists>G'. forEach (\<lambda>H production.
        case split_arrow (trim production) of
          [leftSide, rightSide] \<Rightarrow> addProduction H leftSide rightSide
        | _ \<Rightarrow> Thrown (ProductionFormat production) H []) (map enc ps) G = Done G' []
      \<and> set (stored G') = set (stored G) \<union> set ps
      \<and> nonTerminals G' = nonTerminals G \<and> terminals G' = terminals G
      \<and> startSymbol G' = startSymbol G \<and> gname G' = gname G"
  using assms
proof (induction ps arbitrary: G)
  case Nil
  then show ?case by simp
next
  case (Cons p ps)
  obtain l r where p: "p = (l, r)" by (cases p)
  from Cons.prems p have c: "l \<in> set (nonTerminals G)" "trim l = l" "trim r = r"
    "\<not> has_arrow l" "\<not> has_arrow r"
    by (auto simp: clean_pair_def)
  let ?G1 = "G\<lparr>productions := AList.update l (rhs_of (productions G) l @ [r]) (productions G)\<rparr>"
  have t: "trim (enc p) = enc p" unfolding p enc_def using c by (simp add: trim_arrow)
  have s: "split_arrow (enc p) = [l, r]" unfolding p enc_def using c by (simp add: split_arrow_sides)
  have a: "addProduction G l r = Done ?G1 []" using c(1-3) by (rule addProduction_clean)
  have "\<forall>p \<in> set ps. clean_pair ?G1 p" using Cons.prems by (simp add: clean_pair_def)
  from Cons.IH[OF this] obtain G' where
    G': "forEach (\<lambda>H production.
        case split_arrow (trim production) of
          [leftSide, rightSide] \<Rightarrow> addProduction H leftSide rightSide
        | _ \<Rightarrow> Thrown (ProductionFormat production) H []) (map enc ps) ?G1 = Done G' []"
      "set (stored G') = set (stored ?G1) \<union> set ps"
      "nonTerminals G' = nonTerminals ?G1" "terminals G' = terminals ?G1"
      "startSymbol G' = startSymbol ?G1" "gname G' = gname ?G1"
    by blast
  have st: "set (stored ?G1) = insert (l, r) (set (stored G))"
    using stored_update[of l "productions G" r] by (simp add: stored_def stored_of_def)
  show ?case
    using G' st by (auto simp: t s a p[symmetric] intro!: exI[of _ G'])
qed

lemma trimmed_image: "\<forall>x \<in> set xs. trim x = x \<Longrightarrow> trim ` set xs = set xs"
  by (auto simp: image_iff) 

lemma expected_clean:
  assumes wf: "fa_wf A" and sf: "separator_free A" and q0: "q0 \<in> set (states A)"
    and p: "p \<in> set (expected_productions A q0)"
  shows "fst p \<in> set (states A) \<and> trim (fst p) = fst p \<and> trim (snd p) = snd p
       \<and> \<not> has_arrow (fst p) \<and> \<not> has_arrow (snd p) \<and> 0x3B \<notin> set (enc p)"
proof -
  have semi: "(0x3B :: jschar) \<notin> set (str ''->'')" by (simp add: str_def)
  from p consider
      (full) t where "t \<in> set (getTransitionsArray A)" "p = (tr_from t, tr_symbol t @ tr_to t)"
    | (short) t where "t \<in> set (getTransitionsArray A)" "p = (tr_from t, tr_symbol t)"
    | (eps) "p = (q0, epsilon)"
    unfolding expected_productions_def by (auto split: if_splits)
  then show ?thesis
  proof cases
    case full
    with wf have m: "tr_from t \<in> set (states A)" "tr_symbol t \<in> set (alphabet A)"
      "tr_to t \<in> set (states A)" by (auto simp: fa_wf_def)
    with wf have tr: "trim (tr_from t) = tr_from t" "trim (tr_symbol t) = tr_symbol t"
      "trim (tr_to t) = tr_to t" by (auto simp: fa_wf_def)
    from m sf full(1) have s: "0x3B \<notin> set (tr_from t)" "0x3B \<notin> set (tr_symbol t)"
      "0x3B \<notin> set (tr_to t)" "\<not> has_arrow (tr_from t)" "\<not> has_arrow (tr_symbol t @ tr_to t)"
      by (auto simp: separator_free_def)
    show ?thesis unfolding full(2) using m tr s semi by (simp add: enc_def trim_append)
  next
    case short
    with wf have m: "tr_from t \<in> set (states A)" "tr_symbol t \<in> set (alphabet A)"
      by (auto simp: fa_wf_def)
    with wf have tr: "trim (tr_from t) = tr_from t" "trim (tr_symbol t) = tr_symbol t"
      by (auto simp: fa_wf_def)
    from m sf short(1) have s: "0x3B \<notin> set (tr_from t)" "0x3B \<notin> set (tr_symbol t)"
      "\<not> has_arrow (tr_from t)" "\<not> has_arrow (tr_symbol t @ tr_to t)"
      by (auto simp: separator_free_def)
    then have "\<not> has_arrow (tr_symbol t)" using has_arrow_append by blast
    then show ?thesis unfolding short(2) using m tr s semi by (simp add: enc_def)
  next
    case eps
    from q0 wf sf have "trim q0 = q0" "0x3B \<notin> set q0" "\<not> has_arrow q0"
      by (auto simp: fa_wf_def separator_free_def)
    then show ?thesis unfolding eps using q0 semi
      by (simp add: enc_def trim_epsilon has_arrow_epsilon) (simp add: epsilon_def)
  qed
qed

text \<open>
  C2 (as amended).  Take an automaton whose initial state is set and is one of its
  states, which satisfies the invariants of the data model, and in whose names the
  separators of the production text do not occur.  Then \<open>toRegularGrammar\<close> returns a
  grammar, without any warning: its nonterminals are the states, its terminals the
  alphabet, its start symbol the initial state, its name \<open>GR_\<close> and the automaton's name,
  and the set of its stored productions is exactly the production set of the
  specification.  The function takes the automaton and returns the grammar only: the
  source has no assignment to a field of the automaton.
\<close>

theorem toRegularGrammar_productions:
  assumes init: "initialState A = Some q0" and q0: "q0 \<in> set (states A)"
    and wf: "fa_wf A" and sf: "separator_free A"
  shows "\<exists>G. toRegularGrammar A = Returned G []
          \<and> set (nonTerminals G) = set (states A) \<and> set (terminals G) = set (alphabet A)
          \<and> startSymbol G = Some q0 \<and> gname G = str ''GR_'' @ name A
          \<and> set (stored G) = set (expected_productions A q0)"
proof -
  define G2 where "G2 = setTerminals (setNonTerminals (new_RegularGrammar (str ''GR_'' @ name A))
      (states A)) (alphabet A)"
  define G3 where "G3 = G2\<lparr>startSymbol := Some q0\<rparr>"
  have nt: "set (nonTerminals G2) = set (states A)"
    using wf by (simp add: G2_def setTerminals_def setNonTerminals_def set_fold_Set_add
        trimmed_image fa_wf_def)
  have tm: "set (terminals G2) = set (alphabet A)"
    using wf by (simp add: G2_def setTerminals_def setNonTerminals_def set_fold_Set_add
        trimmed_image fa_wf_def)
  have pr: "productions G2 = []" "gname G2 = str ''GR_'' @ name A"
    by (simp_all add: G2_def setTerminals_def setNonTerminals_def new_RegularGrammar_def)
  have tq: "trim q0 = q0" using wf q0 by (simp add: fa_wf_def)
  have ss: "setStartSymbol G2 q0 = Done G3 []"
    using nt q0 tq by (simp add: setStartSymbol_def G3_def)
  have G3: "set (nonTerminals G3) = set (states A)" "set (terminals G3) = set (alphabet A)"
    "startSymbol G3 = Some q0" "gname G3 = str ''GR_'' @ name A" "stored G3 = []"
    using nt tm pr by (simp_all add: G3_def stored_def)
  let ?eps = "expected_productions A q0"
  have ps: "production_strings A q0 = map enc ?eps" by (rule production_strings_enc)
  have unf: "toRegularGrammar A =
      (if length (map enc ?eps) > 0
       then (case setProductions G3 (join (str '';'') (map enc ?eps)) of
               Thrown e _ w2 \<Rightarrow> Raised e ([] @ w2)
             | Done G4 w2 \<Rightarrow> Returned G4 ([] @ w2))
       else Returned G3 [])"
    unfolding toRegularGrammar_def Let_def init G2_def[symmetric] by (simp add: ss ps)
  show ?thesis
  proof (cases "?eps = []")
    case True
    with unf G3 show ?thesis by simp
  next
    case False
    have clean: "\<forall>p \<in> set ?eps. clean_pair G3 p"
    proof
      fix p assume "p \<in> set ?eps"
      from expected_clean[OF wf sf q0 this] G3(1) show "clean_pair G3 p"
        by (cases p) (simp add: clean_pair_def)
    qed
    have nosemi: "\<forall>x \<in> set (map enc ?eps). 0x3B \<notin> set x"
      using expected_clean[OF wf sf q0] by auto
    have "map enc ?eps \<noteq> []" using False by simp
    from split_chr_join[OF this nosemi]
    have sp: "split_chr 0x3B (join (str '';'') (map enc ?eps)) = map enc ?eps"
      by (simp add: str_def)
    from setProductions_loop[OF clean] obtain G' where
      G': "setProductions G3 (join (str '';'') (map enc ?eps)) = Done G' []"
        "set (stored G') = set (stored G3) \<union> set ?eps"
        "nonTerminals G' = nonTerminals G3" "terminals G' = terminals G3"
        "startSymbol G' = startSymbol G3" "gname G' = gname G3"
      unfolding setProductions_def sp by blast
    with unf False G3 show ?thesis by simp
  qed
qed


theorem toRegularGrammar_productions_witness:
  "initialState fa_X = Some (str ''q0'') \<and> str ''q0'' \<in> set (states fa_X)
   \<and> fa_wf fa_X \<and> separator_free fa_X
   \<and> toRegularGrammar fa_X = Returned gr_X []
   \<and> set (stored gr_X) = set (expected_productions fa_X (str ''q0''))
   \<and> expected_productions fa_X (str ''q0'')
       = [(str ''q0'', str ''aq1''), (str ''q0'', str ''a''), (str ''q0'', str ''bq0''),
          (str ''q1'', str ''aq1''), (str ''q1'', str ''a''), (str ''q1'', str ''bq0'')]"
proof -
  have h1: "initialState fa_X = Some (str ''q0'')" by (simp add: fa_X_def)
  have h2: "str ''q0'' \<in> set (states fa_X)" by (simp add: fa_X_def)
  have h3: "fa_wf fa_X" by code_simp
  have h4: "separator_free fa_X" by code_simp
  have g: "toRegularGrammar fa_X = Returned gr_X []" by code_simp
  have e: "expected_productions fa_X (str ''q0'')
       = [(str ''q0'', str ''aq1''), (str ''q0'', str ''a''), (str ''q0'', str ''bq0''),
          (str ''q1'', str ''aq1''), (str ''q1'', str ''a''), (str ''q1'', str ''bq0'')]"
    by code_simp
  from toRegularGrammar_productions[OF h1 h2 h3 h4] g
  have "set (stored gr_X) = set (expected_productions fa_X (str ''q0''))" by auto
  with h1 h2 h3 h4 g e show ?thesis by blast
qed

text \<open>The setters store trimmed names, so the first invariant holds of what they build.\<close>

lemma setStates_trimmed: "\<forall>x \<in> set (states (setStates A xs)). trim x = x"
  by (simp add: setStates_def set_fold_Set_add trim_trim)

lemma setAlphabet_trimmed: "\<forall>x \<in> set (alphabet (setAlphabet A xs)). trim x = x"
  by (simp add: setAlphabet_def set_fold_Set_add trim_trim)

text \<open>
  The claim as stated fails: on an automaton without initial state the conversion
  throws (\<open>null.trim()\<close>), and on a valid automaton whose state is named \<open>p;q\<close> and is
  final it throws the production-format error, because the text \<open>p;q->\<epsilon>\<close> is split
  at the semicolon.
\<close>

theorem toRegularGrammar_productions_counterexample:
  "toRegularGrammar (new_FiniteAutomaton (str ''X'')) = Raised TypeError []
   \<and> parseFile new_AutomataParser
        (join [0xA] [str ''1:X:p;q'', str ''2:X:a'', str ''3:X:p;q'', str ''4:X:p;q''])
       = Done \<lparr>automata = [(str ''X'', fa_semicolon)], grammars = []\<rparr> []
   \<and> isValid (validate fa_semicolon)
   \<and> toRegularGrammar fa_semicolon = Raised (ProductionFormat (str ''p'')) []"
proof -
  have "toRegularGrammar (new_FiniteAutomaton (str ''X'')) = Raised TypeError []" by code_simp
  moreover have "parseFile new_AutomataParser
        (join [0xA] [str ''1:X:p;q'', str ''2:X:a'', str ''3:X:p;q'', str ''4:X:p;q''])
       = Done \<lparr>automata = [(str ''X'', fa_semicolon)], grammars = []\<rparr> []" by code_simp
  moreover have "isValid (validate fa_semicolon)" by code_simp
  moreover have "toRegularGrammar fa_semicolon = Raised (ProductionFormat (str ''p'')) []"
    by code_simp
  ultimately show ?thesis by blast
qed

end
